theory Spec2Isabelle
  imports Complex_Main "HOL-Library.Multiset" "HOL-Library.Product_Lexorder"
begin

section \<open>Conventions\<close>

text \<open>
  The lighting controller is Python. Its \<^verbatim>\<open>Fraction\<close> values are modelled as \<open>rat\<close>, its
  unbounded integers as \<open>int\<close>, and its floats as \<open>real\<close> (rounding of binary floating
  point is not modelled). Every \<^verbatim>\<open>raise\<close> that the modelled code can reach is a value
  of \<open>py_error\<close>.
\<close>

datatype py_error = ZeroDivisionError | ValueError | IndexError

text \<open>Python's \<^verbatim>\<open>int(x)\<close> on a float or a Fraction truncates towards zero.\<close>

definition py_int :: "real \<Rightarrow> int" where
  "py_int x = (if 0 \<le> x then \<lfloor>x\<rfloor> else \<lceil>x\<rceil>)"

definition py_int_frac :: "rat \<Rightarrow> int" where
  "py_int_frac x = (if 0 \<le> x then \<lfloor>x\<rfloor> else \<lceil>x\<rceil>)"

section \<open>Colours (core/types.py, color.py)\<close>

text \<open>
  \<^verbatim>\<open>class HSV(NamedTuple)\<close>: three floats, stored as given. The constructor of a
  NamedTuple performs no validation.
\<close>

record HSV =
  hue :: real
  saturation :: real
  hsv_value :: real

definition HSV_new :: "real \<Rightarrow> real \<Rightarrow> real \<Rightarrow> HSV" where
  "HSV_new h s v = \<lparr>hue = h, saturation = s, hsv_value = v\<rparr>"

text \<open>\<^verbatim>\<open>x % 1.0\<close> on floats is \<open>x - floor x\<close>.\<close>

definition with_hue :: "HSV \<Rightarrow> real \<Rightarrow> HSV" where
  "with_hue c h = HSV_new (frac h) (saturation c) (hsv_value c)"

definition with_saturation :: "HSV \<Rightarrow> real \<Rightarrow> HSV" where
  "with_saturation c sat = HSV_new (hue c) (max 0 (min 1 sat)) (hsv_value c)"

definition with_value :: "HSV \<Rightarrow> real \<Rightarrow> HSV" where
  "with_value c v = HSV_new (hue c) (saturation c) (max 0 (min 1 v))"

text \<open>color.py: \<^verbatim>\<open>hue_rotate\<close>, \<^verbatim>\<open>dim\<close>, \<^verbatim>\<open>saturate\<close>.\<close>

definition hue_rotate :: "HSV \<Rightarrow> real \<Rightarrow> HSV" where
  "hue_rotate c amount = HSV_new (frac (hue c + amount)) (saturation c) (hsv_value c)"

definition dim :: "HSV \<Rightarrow> real \<Rightarrow> HSV" where
  "dim c factor = HSV_new (hue c) (saturation c) (hsv_value c * factor)"

definition saturate :: "HSV \<Rightarrow> real \<Rightarrow> HSV" where
  "saturate c factor = HSV_new (hue c) (max 0 (min 1 (saturation c * factor))) (hsv_value c)"

text \<open>The range the data model asks of every component.\<close>

definition unit_range :: "real \<Rightarrow> bool" where
  "unit_range x = (0 \<le> x \<and> x \<le> 1)"

definition hsv_in_range :: "HSV \<Rightarrow> bool" where
  "hsv_in_range c = (unit_range (hue c) \<and> unit_range (saturation c) \<and> unit_range (hsv_value c))"

section \<open>The random generator\<close>

text \<open>
  Python's \<^verbatim>\<open>random.Random\<close> is not part of the repository. The generator is a parameter
  \<open>rng\<close>: \<open>rng seed k n\<close> is the raw value behind the \<open>k\<close>-th call of \<^verbatim>\<open>_randbelow(n)\<close> on
  a generator seeded with \<open>seed\<close>, and \<^verbatim>\<open>_randbelow(n)\<close> returns it reduced into
  \<open>0..n-1\<close>. \<^verbatim>\<open>random.shuffle\<close> is the library's loop
  \<^verbatim>\<open>for i in reversed(range(1, len(x))): j = randbelow(i + 1); x[i], x[j] = x[j], x[i]\<close>.
\<close>

type_synonym py_random = "int \<Rightarrow> nat \<Rightarrow> nat \<Rightarrow> nat"

definition randbelow :: "py_random \<Rightarrow> int \<Rightarrow> nat \<Rightarrow> nat \<Rightarrow> nat" where
  "randbelow rng seed k n = rng seed k n mod n"

definition swap_at :: "'a list \<Rightarrow> nat \<Rightarrow> nat \<Rightarrow> 'a list" where
  "swap_at xs i j = xs[i := xs ! j, j := xs ! i]"

definition py_shuffle :: "py_random \<Rightarrow> int \<Rightarrow> 'a list \<Rightarrow> 'a list" where
  "py_shuffle rng seed xs =
     fold (\<lambda>i ys. swap_at ys i (randbelow rng seed (length xs - 1 - i) (Suc i)))
       (rev [1..<length xs]) xs"

section \<open>Palette references (palette.py, core/envelope.py)\<close>

datatype PaletteSelectionMode = INDEX | RANDOM | CYCLE | RANDOM_HOLD | RANDOM_BLEND | CYCLE_HOLD

record PaletteRef =
  mode :: PaletteSelectionMode
  index :: int
  hold_beats :: real
  blend_beats :: real

record Palette =
  palette_name :: string
  colors :: "HSV list"

text \<open>\<^verbatim>\<open>Palette.__post_init__\<close> refuses an empty tuple of colours.\<close>

definition Palette_new :: "string \<Rightarrow> HSV list \<Rightarrow> py_error + Palette" where
  "Palette_new name cs =
     (if cs = [] then Inl ValueError else Inr \<lparr>palette_name = name, colors = cs\<rparr>)"

text \<open>\<^verbatim>\<open>Palette.__getitem__\<close>: \<^verbatim>\<open>self.colors[index % len(self.colors)]\<close>.\<close>

definition palette_getitem :: "Palette \<Rightarrow> int \<Rightarrow> py_error + HSV" where
  "palette_getitem pal i =
     (if colors pal = [] then Inl ZeroDivisionError
      else Inr (colors pal ! nat (i mod int (length (colors pal)))))"

text \<open>\<^verbatim>\<open>rng.choice(seq)\<close> on a freshly seeded generator: its first draw indexes the sequence.\<close>

definition py_choice :: "py_random \<Rightarrow> int \<Rightarrow> 'a list \<Rightarrow> py_error + 'a" where
  "py_choice rng seed xs =
     (if xs = [] then Inl IndexError else Inr (xs ! randbelow rng seed 0 (length xs)))"

text \<open>Python's float \<^verbatim>\<open>a % b\<close> takes the sign of \<open>b\<close>.\<close>

definition py_fmod :: "real \<Rightarrow> real \<Rightarrow> real" where
  "py_fmod a b = a - b * of_int \<lfloor>a / b\<rfloor>"

definition interpolate_hsv :: "HSV \<Rightarrow> HSV \<Rightarrow> real \<Rightarrow> HSV" where
  "interpolate_hsv c1 c2 t0 =
     (let t = max 0 (min 1 t0);
          far = \<bar>hue c2 - hue c1\<bar> > 1 / 2;
          h1 = (if far \<and> hue c1 < hue c2 then hue c1 + 1 else hue c1);
          h2 = (if far \<and> \<not> hue c1 < hue c2 then hue c2 + 1 else hue c2);
          hue' = frac (h1 + (h2 - h1) * t);
          sat = saturation c1 + (saturation c2 - saturation c1) * t;
          val = hsv_value c1 + (hsv_value c2 - hsv_value c1) * t
      in HSV_new hue' sat val)"

text \<open>
  \<^verbatim>\<open>PaletteRef.resolve\<close>. \<open>os_seed\<close> stands for the entropy that an unseeded
  \<^verbatim>\<open>random.Random()\<close> takes from the operating system. The shuffled index list of the
  hold modes is \<^verbatim>\<open>random.Random(42).shuffle(list(range(len(palette.colors))))\<close>.
\<close>

definition shuffled_indices :: "py_random \<Rightarrow> Palette \<Rightarrow> nat list" where
  "shuffled_indices rng pal = py_shuffle rng 42 [0..<length (colors pal)]"

definition resolve :: "py_random \<Rightarrow> int \<Rightarrow> PaletteRef \<Rightarrow> Palette \<Rightarrow> int \<Rightarrow> rat option \<Rightarrow> int option \<Rightarrow>
    py_error + HSV" where
  "resolve rng os_seed ref pal event_index cycle_position seed =
     (case mode ref of
        INDEX \<Rightarrow> palette_getitem pal (index ref)
      | RANDOM \<Rightarrow>
          (case seed of
             Some sd \<Rightarrow> py_choice rng sd (colors pal)
           | None \<Rightarrow>
               (case cycle_position of
                  Some cp \<Rightarrow> py_choice rng (py_int (of_rat cp * 10000) + event_index) (colors pal)
                | None \<Rightarrow> py_choice rng os_seed (colors pal)))
      | CYCLE \<Rightarrow> palette_getitem pal event_index
      | RANDOM_HOLD \<Rightarrow>
          (case cycle_position of
             Some cp \<Rightarrow>
               (let pos_beats = of_rat cp * 4 in
                if hold_beats ref = 0 then Inl ZeroDivisionError
                else let quantized = py_int (pos_beats / hold_beats ref);
                         indices = shuffled_indices rng pal
                     in if indices = [] then Inl ZeroDivisionError
                        else let shuffled_index = indices ! nat (quantized mod int (length indices))
                             in palette_getitem pal (int shuffled_index))
           | None \<Rightarrow>
               (case seed of
                  Some sd \<Rightarrow> py_choice rng sd (colors pal)
                | None \<Rightarrow> py_choice rng os_seed (colors pal)))
      | CYCLE_HOLD \<Rightarrow>
          (case cycle_position of
             Some cp \<Rightarrow>
               (let pos_beats = of_rat cp * 4 in
                if hold_beats ref = 0 then Inl ZeroDivisionError
                else palette_getitem pal (py_int (pos_beats / hold_beats ref)))
           | None \<Rightarrow> palette_getitem pal event_index)
      | RANDOM_BLEND \<Rightarrow>
          (case cycle_position of
             Some cp \<Rightarrow>
               (let pos_beats = of_rat cp * 4;
                    period = hold_beats ref;
                    fade = blend_beats ref
                in if period = 0 then Inl ZeroDivisionError
                   else let period_index = py_int (pos_beats / period);
                            pos_in_period = py_fmod pos_beats period;
                            indices = shuffled_indices rng pal
                        in if indices = [] then Inl ZeroDivisionError
                           else let from_idx = indices ! nat (period_index mod int (length indices));
                                    to_idx = indices ! nat ((period_index + 1) mod int (length indices));
                                    hold_duration = period - fade
                                in if pos_in_period < hold_duration \<or> fade \<le> 0
                                   then palette_getitem pal (int from_idx)
                                   else let fade_progress = (pos_in_period - hold_duration) / fade in
                                        (case palette_getitem pal (int from_idx) of
                                           Inl e \<Rightarrow> Inl e
                                         | Inr from_color \<Rightarrow>
                                             (case palette_getitem pal (int to_idx) of
                                                Inl e \<Rightarrow> Inl e
                                              | Inr to_color \<Rightarrow>
                                                  Inr (interpolate_hsv from_color to_color fade_progress))))
           | None \<Rightarrow>
               (case seed of
                  Some sd \<Rightarrow> py_choice rng sd (colors pal)
                | None \<Rightarrow> py_choice rng os_seed (colors pal))))"

text \<open>The accessor \<^verbatim>\<open>palette.random_hold(beats)\<close>.\<close>

definition random_hold :: "real \<Rightarrow> PaletteRef" where
  "random_hold beats = \<lparr>mode = RANDOM_HOLD, index = 0, hold_beats = beats, blend_beats = 0\<rparr>"

text \<open>Two colours of color.py and a small palette used as concrete inputs.\<close>

definition red :: HSV where
  "red = HSV_new 0 1 1"

definition blue :: HSV where
  "blue = HSV_new (6 / 10) 1 1"

definition red_blue :: Palette where
  "red_blue = \<lparr>palette_name = ''red_blue'', colors = [red, blue]\<rparr>"

section \<open>Envelopes (core/envelope.py)\<close>

record Envelope =
  attack :: real
  decay :: real
  sustain :: real
  release :: real
  flash_color :: "HSV option"
  fade_color :: "HSV option"
  flash_ref :: "PaletteRef option"
  fade_ref :: "PaletteRef option"

definition total_duration :: "Envelope \<Rightarrow> real" where
  "total_duration e = attack e + decay e"

definition get_intensity :: "Envelope \<Rightarrow> real \<Rightarrow> real" where
  "get_intensity e time_in_event =
     (if time_in_event < 0 then 0
      else if time_in_event < attack e then
        (if attack e \<le> 0 then 1
         else let t = time_in_event / attack e
              in (if attack e > 5 / 100 then max (1 / 10) t else 1))
      else let time_after_attack = time_in_event - attack e in
        if time_after_attack < decay e then
          (if decay e \<le> 0 then sustain e
           else let t = time_after_attack / decay e
                in 1 - t * (1 - sustain e))
        else sustain e)"

definition get_release_intensity :: "Envelope \<Rightarrow> real \<Rightarrow> real" where
  "get_release_intensity e time_since_release =
     (if release e \<le> 0 then 0
      else if time_since_release \<ge> release e then 0
      else let t = time_since_release / release e
           in sustain e * (1 - t))"

section \<open>Gamma correction (cli/midi_pattern_mode.py, cli/midi_hue.py)\<close>

text \<open>
  \<^verbatim>\<open>rgb_to_rgb16\<close> is the same function in both files. Python's \<^verbatim>\<open>x ** gamma\<close> on a
  non-negative float is \<open>x powr gamma\<close>.
\<close>

definition gamma_channel :: "real \<Rightarrow> real \<Rightarrow> real" where
  "gamma_channel x gamma = (max 0 (min 1 x)) powr gamma"

definition rgb_to_rgb16 :: "real \<Rightarrow> real \<Rightarrow> real \<Rightarrow> real \<Rightarrow> int \<times> int \<times> int" where
  "rgb_to_rgb16 r g b gamma =
     (let r' = gamma_channel r gamma;
          g' = gamma_channel g gamma;
          b' = gamma_channel b gamma
      in (py_int (r' * 65535), py_int (g' * 65535), py_int (b' * 65535)))"

text \<open>The default argument \<^verbatim>\<open>gamma = 2.2\<close>.\<close>

definition default_gamma :: real where
  "default_gamma = 22 / 10"

section \<open>The clock consumer (cli/midi_pattern_mode.py, the MIDI message loop)\<close>

text \<open>
  The local variables of the loop and the fields of the shared \<^verbatim>\<open>engine_state\<close> that the
  loop writes (prefix \<open>es_\<close>). \<open>pattern_switches\<close> records the calls of
  \<^verbatim>\<open>pattern_engine.set_pattern_by_index\<close>, oldest first. The terminal messages and the
  redraws are not modelled.
\<close>

record clock_state =
  tick_count :: int
  beat_count :: int
  last_beat_time :: real
  current_bpm :: real
  pending_reset :: bool
  ui_bar :: int
  ui_beat :: int
  es_beat_position :: real
  es_bpm :: real
  es_beat_count :: int
  es_queued_pattern_index :: "int option"
  es_queue_target_bar :: "int option"
  pattern_switches :: "int list"

datatype midi_msg = Clock | Start | Stop | Continue | SongPos int | OtherMsg

definition TICKS_PER_BEAT :: int where
  "TICKS_PER_BEAT = 24"

text \<open>The branch of a clock pulse that completes a beat; \<open>now\<close> is \<^verbatim>\<open>time.time()\<close>.\<close>

definition on_beat :: "real \<Rightarrow> clock_state \<Rightarrow> clock_state" where
  "on_beat now s0 =
     (let s1 = s0\<lparr>tick_count := 0, beat_count := beat_count s0 + 1\<rparr> in
      if pending_reset s1 then
        s1\<lparr>pending_reset := False, tick_count := 0, beat_count := 1, ui_bar := 1, ui_beat := 1,
           es_beat_position := 0, es_beat_count := 1, last_beat_time := now\<rparr>
      else
        let beat_duration = now - last_beat_time s1;
            s2 = (if beat_duration > 0 \<and> last_beat_time s1 > 0
                  then s1\<lparr>current_bpm := 60 / beat_duration\<rparr> else s1);
            s3 = s2\<lparr>last_beat_time := now,
                    ui_beat := ((beat_count s2 - 1) mod 4) + 1,
                    ui_bar := (beat_count s2 - 1) div 4 + 1\<rparr>;
            s4 = (if ui_beat s3 = 1 then
                    (case (es_queued_pattern_index s3, es_queue_target_bar s3) of
                       (Some queued_idx, Some target_bar) \<Rightarrow>
                         if ui_bar s3 \<ge> target_bar
                         then s3\<lparr>pattern_switches := pattern_switches s3 @ [queued_idx],
                                 es_queued_pattern_index := None,
                                 es_queue_target_bar := None\<rparr>
                         else s3
                     | _ \<Rightarrow> s3)
                  else s3)
        in s4\<lparr>es_beat_position :=
                 of_int (beat_count s4 - 1) + of_int (tick_count s4) / of_int TICKS_PER_BEAT,
               es_bpm := current_bpm s4,
               es_beat_count := beat_count s4\<rparr>)"

definition handle_msg :: "real \<Rightarrow> midi_msg \<Rightarrow> clock_state \<Rightarrow> clock_state" where
  "handle_msg now msg s =
     (case msg of
        Clock \<Rightarrow>
          (let s1 = s\<lparr>tick_count := tick_count s + 1\<rparr> in
           if tick_count s1 \<ge> TICKS_PER_BEAT then on_beat now s1
           else s1\<lparr>es_beat_position :=
                      of_int (beat_count s1 - 1) + of_int (tick_count s1) / of_int TICKS_PER_BEAT,
                    es_bpm := current_bpm s1,
                    es_beat_count := beat_count s1\<rparr>)
      | Start \<Rightarrow>
          s\<lparr>tick_count := 0, beat_count := 1, last_beat_time := now, ui_bar := 1, ui_beat := 1,
            es_beat_position := 0, es_beat_count := 1\<rparr>
      | Stop \<Rightarrow> s
      | Continue \<Rightarrow>
          s\<lparr>tick_count := 0, beat_count := 1, last_beat_time := now, ui_bar := 1, ui_beat := 1,
            es_beat_position := 0, es_beat_count := 1\<rparr>
      | SongPos position \<Rightarrow>
          (let bc = position div 4 + 1;
               tc = (position mod 4) * (TICKS_PER_BEAT div 4)
           in s\<lparr>beat_count := bc, tick_count := tc,
                ui_beat := ((bc - 1) mod 4) + 1, ui_bar := (bc - 1) div 4 + 1,
                es_beat_count := bc,
                es_beat_position := of_int (bc - 1) + of_int tc / of_int TICKS_PER_BEAT\<rparr>)
      | OtherMsg \<Rightarrow> s)"

text \<open>A consumer in the middle of bar 2: beat 5, twelve pulses into it.\<close>

definition mid_song :: clock_state where
  "mid_song = \<lparr>tick_count = 12, beat_count = 5, last_beat_time = 100, current_bpm = 120,
     pending_reset = False, ui_bar = 2, ui_beat = 1, es_beat_position = 9 / 2, es_bpm = 120,
     es_beat_count = 5, es_queued_pattern_index = None, es_queue_target_bar = None,
     pattern_switches = []\<rparr>"

section \<open>Time spans, modulators and events (core/types.py, modulator.py)\<close>

record TimeSpan =
  ts_start :: rat
  ts_end :: rat

definition span :: "rat \<Rightarrow> rat \<Rightarrow> TimeSpan" where
  "span a b = \<lparr>ts_start = a, ts_end = b\<rparr>"

definition duration :: "TimeSpan \<Rightarrow> rat" where
  "duration s = ts_end s - ts_start s"

definition intersection :: "TimeSpan \<Rightarrow> TimeSpan \<Rightarrow> TimeSpan option" where
  "intersection a b =
     (let new_start = max (ts_start a) (ts_start b);
          new_end = min (ts_end a) (ts_end b)
      in if new_start < new_end then Some (span new_start new_end) else None)"

definition contains :: "TimeSpan \<Rightarrow> rat \<Rightarrow> bool" where
  "contains s t = (ts_start s \<le> t \<and> t < ts_end s)"

definition span_shift :: "TimeSpan \<Rightarrow> rat \<Rightarrow> TimeSpan" where
  "span_shift s offset = span (ts_start s + offset) (ts_end s + offset)"


datatype WaveType = SINE | TRIANGLE | SAW | SQUARE

datatype Modulator = Modulator
  (wave: WaveType)
  (frequency: real)
  (min_intensity: real)
  (max_intensity: real)
  (phase: real)
  (reference_time: real)
  (chain: "Modulator list option")

text \<open>
  \<^verbatim>\<open>Modulator.get_intensity\<close>. A chain that is \<^verbatim>\<open>None\<close> or empty multiplies nothing in.
\<close>

fun modulator_intensity :: "Modulator \<Rightarrow> real \<Rightarrow> real" where
  "modulator_intensity (Modulator w f lo hi ph ref ch) cycle_position =
     (let relative_position = cycle_position - ref;
          t = frac (relative_position * f + ph);
          wave_value = (case w of
              SINE \<Rightarrow> (sin (t * 2 * pi) + 1) / 2
            | TRIANGLE \<Rightarrow> (if t < 1 / 2 then t * 2 else 2 - t * 2)
            | SAW \<Rightarrow> t
            | SQUARE \<Rightarrow> (if t < 1 / 2 then 1 else 0));
          intensity = lo + wave_value * (hi - lo)
      in case ch of
           None \<Rightarrow> intensity
         | Some ms \<Rightarrow> intensity * prod_list (map (\<lambda>m. modulator_intensity m cycle_position) ms))"

record LightValue =
  light_id :: "int option"
  group :: "string option"
  color :: "HSV option"
  color_ref :: "PaletteRef option"
  intensity :: real
  envelope :: "Envelope option"
  modulator :: "Modulator option"

record LightHap =
  whole :: "TimeSpan option"
  part :: TimeSpan
  hap_value :: LightValue

definition whole_or_part :: "LightHap \<Rightarrow> TimeSpan" where
  "whole_or_part h = (case whole h of Some w \<Rightarrow> w | None \<Rightarrow> part h)"

definition with_part :: "LightHap \<Rightarrow> TimeSpan \<Rightarrow> LightHap" where
  "with_part h p = \<lparr>whole = whole h, part = p, hap_value = hap_value h\<rparr>"

definition hap_shift :: "LightHap \<Rightarrow> rat \<Rightarrow> LightHap" where
  "hap_shift h offset =
     \<lparr>whole = map_option (\<lambda>w. span_shift w offset) (whole h),
      part = span_shift (part h) offset,
      hap_value = hap_value h\<rparr>"


record LightContext =
  num_lights :: int
  groups :: "string \<rightharpoonup> int list"
  cycle_beats :: real
  zones :: "string \<rightharpoonup> int list"
  available_zones :: "string list"

text \<open>The constructor with its \<^verbatim>\<open>__post_init__\<close>: the group "all" is added when absent.\<close>

definition LightContext_new :: "int \<Rightarrow> (string \<rightharpoonup> int list) \<Rightarrow> LightContext" where
  "LightContext_new n gs =
     \<lparr>num_lights = n,
      groups = (if ''all'' \<in> dom gs then gs else gs(''all'' \<mapsto> [0..n - 1])),
      cycle_beats = 4,
      zones = Map.empty,
      available_zones = []\<rparr>"

definition resolve_group :: "LightContext \<Rightarrow> string \<Rightarrow> int list" where
  "resolve_group ctx name = (case groups ctx name of Some ls \<Rightarrow> ls | None \<Rightarrow> [])"

section \<open>Patterns (core/pattern.py, dsl/constructors.py)\<close>

text \<open>
  A pattern wraps a query function. A query can raise (a zero time-scaling factor, an
  empty random range), so it returns an error or the list of events.
\<close>

type_synonym LightPattern = "TimeSpan \<Rightarrow> LightContext \<Rightarrow> py_error + LightHap list"

text \<open>A list comprehension whose element expression can raise stops at the first error.\<close>

fun collect :: "(py_error + 'a) list \<Rightarrow> py_error + 'a list" where
  "collect [] = Inr []"
| "collect (Inl e # _) = Inl e"
| "collect (Inr x # rs) = (case collect rs of Inl e \<Rightarrow> Inl e | Inr xs \<Rightarrow> Inr (x # xs))"

text \<open>\<^verbatim>\<open>range(a, b)\<close> over integers is \<open>[a..b - 1]\<close>.\<close>

definition py_range :: "int \<Rightarrow> int \<Rightarrow> int list" where
  "py_range a b = [a..b - 1]"

text \<open>
  \<^verbatim>\<open>Fraction.limit_denominator\<close> belongs to Python's standard library, not to the
  repository; it is modelled after the library's algorithm (continued-fraction
  convergents, then the closer of the two candidates). A fraction is the pair of its
  numerator and its positive denominator in lowest terms.
\<close>

function ld_loop :: "int \<Rightarrow> int \<Rightarrow> int \<Rightarrow> int \<Rightarrow> int \<Rightarrow> int \<Rightarrow> int \<Rightarrow>
    py_error + (int \<times> int \<times> int \<times> int)" where
  "ld_loop maxd p0 q0 p1 q1 n d =
     (if d \<le> 0 then Inl ZeroDivisionError
      else let a = n div d; q2 = q0 + a * q1 in
        if q2 > maxd then Inr (p0, q0, p1, q1)
        else ld_loop maxd p1 q1 (p0 + a * p1) q2 d (n - a * d))"
  by pat_completeness auto
termination
proof (relation "measure (\<lambda>(maxd, p0, q0, p1, q1, n, d). nat d)")
  show "wf (measure (\<lambda>(maxd, p0, q0, p1, q1, n, d). nat d))" by simp
next
  fix maxd p0 q0 p1 q1 n d :: int and a q2 :: int
  assume "\<not> d \<le> 0" and a: "a = n div d"
  then have "0 < d" by simp
  have "n - a * d = n mod d" by (simp add: a minus_div_mult_eq_mod)
  moreover have "n mod d < d" using \<open>0 < d\<close> by simp
  moreover have "0 \<le> n mod d" using \<open>0 < d\<close> by simp
  ultimately show "((maxd, p1, q1, p0 + a * p1, q2, d, n - a * d), (maxd, p0, q0, p1, q1, n, d))
      \<in> measure (\<lambda>(maxd, p0, q0, p1, q1, n, d). nat d)"
    by simp
qed

definition limit_denominator :: "rat \<Rightarrow> int \<Rightarrow> py_error + rat" where
  "limit_denominator x max_denominator =
     (if max_denominator < 1 then Inl ValueError
      else let (num, den) = quotient_of x in
        if den \<le> max_denominator then Inr x
        else case ld_loop max_denominator 0 1 1 0 num den of
               Inl e \<Rightarrow> Inl e
             | Inr (p0, q0, p1, q1) \<Rightarrow>
                 if q1 = 0 then Inl ZeroDivisionError
                 else let k = (max_denominator - q0) div q1 in
                   if q0 + k * q1 = 0 then Inl ZeroDivisionError
                   else let bound1 = Fract (p0 + k * p1) (q0 + k * q1);
                            bound2 = Fract p1 q1
                        in if \<bar>bound2 - x\<bar> \<le> \<bar>bound1 - x\<bar> then Inr bound2 else Inr bound1)"




text \<open>
  \<^verbatim>\<open>LightPattern.early\<close> and \<^verbatim>\<open>late\<close>: the query span is shifted by the offset and the
  events are shifted back; \<^verbatim>\<open>late(x)\<close> is \<^verbatim>\<open>early(-x)\<close>, so the pattern under \<^verbatim>\<open>late\<close> is
  queried before time zero.
\<close>

definition query_early :: "LightPattern \<Rightarrow> rat \<Rightarrow> LightPattern" where
  "query_early p offset_frac = (\<lambda>sp ctx.
     let shifted_span = span_shift sp offset_frac in
     case p shifted_span ctx of
       Inl e \<Rightarrow> Inl e
     | Inr haps \<Rightarrow> Inr (map (\<lambda>h. hap_shift h (- offset_frac)) haps))"

definition early :: "LightPattern \<Rightarrow> rat \<Rightarrow> py_error + LightPattern" where
  "early p offset =
     (case limit_denominator offset 1000 of
        Inl e \<Rightarrow> Inl e
      | Inr offset_frac \<Rightarrow> Inr (query_early p offset_frac))"

definition late :: "LightPattern \<Rightarrow> rat \<Rightarrow> py_error + LightPattern" where
  "late p offset = early p (- offset)"

text \<open>
  \<^verbatim>\<open>light(notation)\<close>: \<open>event_data\<close> is the parsed notation, the tuples
  \<open>(start, end, light_id, group)\<close> of one cycle with the rests removed.
\<close>

definition light_value :: "int option \<Rightarrow> string option \<Rightarrow> LightValue" where
  "light_value lid grp =
     \<lparr>light_id = lid, group = grp, color = None, color_ref = None, intensity = 1,
      envelope = None, modulator = None\<rparr>"

definition light :: "(rat \<times> rat \<times> int option \<times> string option) list \<Rightarrow> LightPattern" where
  "light event_data = (\<lambda>sp ctx.
     let cycle_start = py_int_frac (ts_start sp);
         cycle_end = py_int_frac (ts_end sp) + 1
     in Inr (concat (map (\<lambda>cycle.
          concat (map (\<lambda>(start, end', lid, grp).
            let w = span (start + of_int cycle) (end' + of_int cycle) in
            case intersection w sp of
              None \<Rightarrow> []
            | Some i \<Rightarrow> [\<lparr>whole = Some w, part = i, hap_value = light_value lid grp\<rparr>])
          event_data))
        (py_range cycle_start cycle_end))))"






text \<open>Two contexts and two one-cycle patterns used as concrete inputs.\<close>

definition two_lights :: LightContext where
  "two_lights = LightContext_new 2 Map.empty"


definition light_zero_one :: LightPattern where
  "light_zero_one = light [(0, 1 / 2, Some 0, None), (1 / 2, 1, Some 1, None)]"



definition hap_at :: "rat \<Rightarrow> rat \<Rightarrow> rat \<Rightarrow> rat \<Rightarrow> int \<Rightarrow> LightHap" where
  "hap_at ws we ps pe l =
     \<lparr>whole = Some (span ws we), part = span ps pe, hap_value = light_value (Some l) None\<rparr>"

section \<open>Shuffling (core/pattern.py)\<close>

text \<open>
  \<^verbatim>\<open>LightPattern.shuffle\<close>. The sort key is \<^verbatim>\<open>(h.whole_or_part().start, h.value.light_id or 0)\<close>
  and Python's sort is stable, as \<open>sort_key\<close> is.
\<close>

definition shuffle_key :: "LightHap \<Rightarrow> rat \<times> int" where
  "shuffle_key h =
     (ts_start (whole_or_part h), (case light_id (hap_value h) of Some l \<Rightarrow> l | None \<Rightarrow> 0))"

text \<open>Both branches of the loop body keep the events whose part meets the query span, cut to it.\<close>

definition clip_to :: "TimeSpan \<Rightarrow> LightHap list \<Rightarrow> LightHap list" where
  "clip_to sp haps =
     concat (map (\<lambda>h. case intersection (part h) sp of
                         None \<Rightarrow> []
                       | Some i \<Rightarrow> [with_part h i]) haps)"

text \<open>The events of one complete cycle with their values permuted (none or one: unchanged).\<close>

definition shuffle_cycle :: "py_random \<Rightarrow> int option \<Rightarrow> int \<Rightarrow> LightHap list \<Rightarrow> LightHap list" where
  "shuffle_cycle rng seed cycle cycle_haps =
     (if length cycle_haps \<le> 1 then cycle_haps
      else let sorted_haps = sort_key shuffle_key cycle_haps;
               timings = map (\<lambda>h. (whole h, part h)) sorted_haps;
               vals = py_shuffle rng (case seed of None \<Rightarrow> cycle | Some s \<Rightarrow> s + cycle)
                        (map hap_value sorted_haps)
           in map (\<lambda>((w, p), v). \<lparr>whole = w, part = p, hap_value = v\<rparr>) (zip timings vals))"

definition cycle_span :: "int \<Rightarrow> TimeSpan" where
  "cycle_span cycle = span (of_int cycle) (of_int (cycle + 1))"

fun shuffle_cycles :: "py_random \<Rightarrow> int option \<Rightarrow> LightPattern \<Rightarrow> TimeSpan \<Rightarrow> LightContext \<Rightarrow>
    int list \<Rightarrow> py_error + LightHap list" where
  "shuffle_cycles rng seed p sp ctx [] = Inr []"
| "shuffle_cycles rng seed p sp ctx (cycle # cycles) =
     (case p (cycle_span cycle) ctx of
        Inl e \<Rightarrow> Inl e
      | Inr cycle_haps \<Rightarrow>
          (case shuffle_cycles rng seed p sp ctx cycles of
             Inl e \<Rightarrow> Inl e
           | Inr rest \<Rightarrow> Inr (clip_to sp (shuffle_cycle rng seed cycle cycle_haps) @ rest)))"

definition shuffle :: "py_random \<Rightarrow> LightPattern \<Rightarrow> int option \<Rightarrow> LightPattern" where
  "shuffle rng p seed = (\<lambda>sp ctx.
     let cycle_start = py_int_frac (ts_start sp);
         cycle_end = py_int_frac (ts_end sp) + 1
     in shuffle_cycles rng seed p sp ctx (py_range cycle_start cycle_end))"

text \<open>
  The time slot of an event, and the query-window discipline for a complete cycle: the
  part of an event is not empty and lies inside the cycle.
\<close>

definition timing :: "LightHap \<Rightarrow> TimeSpan option \<times> TimeSpan" where
  "timing h = (whole h, part h)"

definition inside_cycle :: "int \<Rightarrow> LightHap \<Rightarrow> bool" where
  "inside_cycle cycle h =
     (of_int cycle \<le> ts_start (part h) \<and> ts_start (part h) < ts_end (part h)
      \<and> ts_end (part h) \<le> of_int cycle + 1)"

section \<open>Group expansion: seq and pick (core/pattern.py)\<close>

text \<open>
  Both transforms build the value of a per-light event with the same constructor call,
  \<^verbatim>\<open>LightValue(light_id=light_id, group=None, color=hap.value.color,
  intensity=hap.value.intensity, envelope=hap.value.envelope, modulator=hap.value.modulator)\<close>;
  \<^verbatim>\<open>color_ref\<close> is not passed and takes its default \<^verbatim>\<open>None\<close>.
\<close>

definition expanded_value :: "LightValue \<Rightarrow> int \<Rightarrow> LightValue" where
  "expanded_value v l =
     \<lparr>light_id = Some l, group = None, color = color v, color_ref = None,
      intensity = intensity v, envelope = envelope v, modulator = modulator v\<rparr>"

text \<open>
  The slot count of the default case: \<^verbatim>\<open>num_slots = 4; while num_slots < n: num_slots *= 2\<close>.
  The loop starts from 4; the test \<open>0 < num_slots\<close> is true on every iteration and only
  serves the termination proof.
\<close>

function double_until :: "int \<Rightarrow> int \<Rightarrow> int" where
  "double_until num_slots n =
     (if num_slots < n \<and> 0 < num_slots then double_until (num_slots * 2) n else num_slots)"
  by pat_completeness auto
termination
  by (relation "measure (\<lambda>(num_slots, n). nat (n - num_slots))") auto

text \<open>\<^verbatim>\<open>if hap.value.group and hap.value.light_id is None\<close>: an empty group name is falsy.\<close>

definition seq_expands :: "LightHap \<Rightarrow> bool" where
  "seq_expands hap =
     (group (hap_value hap) \<noteq> None \<and> group (hap_value hap) \<noteq> Some [] \<and> light_id (hap_value hap) = None)"

definition physical_groups :: "bool \<Rightarrow> LightContext \<Rightarrow> string \<Rightarrow> int list list" where
  "physical_groups per_group ctx group_name =
     (if per_group \<and> group_name = ''all'' then
        (let strip = resolve_group ctx ''strip'';
             lamps = resolve_group ctx ''lamps'';
             ambient = resolve_group ctx ''ambient'';
             found = (if strip \<noteq> [] then [strip] else [])
                   @ (if lamps \<noteq> [] then [lamps] else [])
                   @ (if ambient \<noteq> [] then [ambient] else [])
         in if found = [] then [resolve_group ctx ''all''] else found)
      else [resolve_group ctx group_name])"

text \<open>The sequence through one physical group; \<^verbatim>\<open>slots * n // ctx.num_lights\<close> can divide by zero.\<close>

definition seq_lights :: "int option \<Rightarrow> LightContext \<Rightarrow> TimeSpan \<Rightarrow> LightHap \<Rightarrow> int list \<Rightarrow>
    py_error + LightHap list" where
  "seq_lights slots ctx sp hap lights =
     (if lights = [] then Inr []
      else
        let n = int (length lights);
            event_span = whole_or_part hap;
            event_duration = duration event_span
        in case (case slots of
                   Some sl \<Rightarrow> (if num_lights ctx = 0 then Inl ZeroDivisionError
                               else Inr (max n (sl * n div num_lights ctx)))
                 | None \<Rightarrow> Inr (if n > 4 then double_until 4 n else max 4 n)) of
             Inl e \<Rightarrow> Inl e
           | Inr num_slots \<Rightarrow>
               let light_duration = event_duration / of_int num_slots;
                   cycle_start = py_int_frac (ts_start event_span);
                   base_slot = (cycle_start * num_slots) mod n
               in Inr (concat (map (\<lambda>slot.
                    let lid = lights ! nat ((base_slot + slot) mod n);
                        light_start = ts_start event_span + light_duration * of_int slot;
                        light_end = light_start + light_duration;
                        light_whole = span light_start light_end
                    in case intersection light_whole sp of
                         None \<Rightarrow> []
                       | Some i \<Rightarrow> [\<lparr>whole = Some light_whole, part = i,
                                      hap_value = expanded_value (hap_value hap) lid\<rparr>])
                  (py_range 0 num_slots))))"

text \<open>The events that one source event contributes to the result of \<open>seq\<close>.\<close>

definition seq_hap :: "int option \<Rightarrow> bool \<Rightarrow> LightContext \<Rightarrow> TimeSpan \<Rightarrow> LightHap \<Rightarrow>
    py_error + LightHap list" where
  "seq_hap slots per_group ctx sp hap =
     (if seq_expands hap then
        (case collect (map (seq_lights slots ctx sp hap)
                 (physical_groups per_group ctx (the (group (hap_value hap))))) of
           Inl e \<Rightarrow> Inl e
         | Inr parts \<Rightarrow> Inr (concat parts))
      else Inr [hap])"

definition seq :: "LightPattern \<Rightarrow> int option \<Rightarrow> bool \<Rightarrow> LightPattern" where
  "seq p slots per_group = (\<lambda>sp ctx.
     case p sp ctx of
       Inl e \<Rightarrow> Inl e
     | Inr haps \<Rightarrow>
         (case collect (map (seq_hap slots per_group ctx sp) haps) of
            Inl e \<Rightarrow> Inl e
          | Inr parts \<Rightarrow> Inr (concat parts)))"

text \<open>
  \<^verbatim>\<open>pick\<close>. A count is an integer or a float; Python's \<^verbatim>\<open>round\<close> rounds halves to even.
  The library calls \<^verbatim>\<open>hash\<close> (of a Fraction) and \<^verbatim>\<open>rng.sample\<close> are parameters:
  \<open>sample_of seed a b lights n\<close> is \<^verbatim>\<open>rng.sample(lights, n)\<close> on the generator seeded with
  \<open>seed\<close> after it served \<^verbatim>\<open>randint(a, b)\<close>.
\<close>

datatype count_arg = CountInt int | CountFloat real

definition py_round :: "real \<Rightarrow> int" where
  "py_round x = (if frac x = 1 / 2 then (if even \<lfloor>x\<rfloor> then \<lfloor>x\<rfloor> else \<lfloor>x\<rfloor> + 1) else \<lfloor>x + 1 / 2\<rfloor>)"

definition resolve_count :: "count_arg \<Rightarrow> int \<Rightarrow> int" where
  "resolve_count v n_total =
     (case v of
        CountFloat x \<Rightarrow> (if 0 \<le> x \<and> x \<le> 1 then max 1 (py_round (x * of_int n_total)) else py_int x)
      | CountInt i \<Rightarrow> i)"

record pick_library =
  hash_of :: "rat \<Rightarrow> int"
  sample_of :: "int \<Rightarrow> int \<Rightarrow> int \<Rightarrow> int list \<Rightarrow> nat \<Rightarrow> int list"

text \<open>\<^verbatim>\<open>rng.randint(a, b)\<close> raises \<^verbatim>\<open>ValueError\<close> on an empty range.\<close>

definition py_randint :: "py_random \<Rightarrow> int \<Rightarrow> int \<Rightarrow> int \<Rightarrow> py_error + int" where
  "py_randint rng seed a b =
     (if a > b then Inl ValueError else Inr (a + int (randbelow rng seed 0 (nat (b - a + 1)))))"

definition pick_hap :: "py_random \<Rightarrow> pick_library \<Rightarrow> count_arg \<Rightarrow> count_arg \<Rightarrow> int option \<Rightarrow>
    rat option \<Rightarrow> LightContext \<Rightarrow> LightHap \<Rightarrow> py_error + LightHap list" where
  "pick_hap rng lib min_n max_n seed hold_frac ctx hap =
     (if light_id (hap_value hap) \<noteq> None then Inr [hap]
      else
        let lights = (if group (hap_value hap) \<noteq> None \<and> group (hap_value hap) \<noteq> Some []
                      then resolve_group ctx (the (group (hap_value hap)))
                      else py_range 0 (num_lights ctx))
        in if lights = [] then Inr []
           else
             let n_total = int (length lights);
                 actual_min = resolve_count min_n n_total;
                 actual_max = resolve_count max_n n_total;
                 event_time = ts_start (whole_or_part hap);
                 seed0 = (case seed of Some sd \<Rightarrow> sd | None \<Rightarrow> 0)
             in case (case hold_frac of
                        Some hf \<Rightarrow>
                          (if hf = 0 then Inl ZeroDivisionError
                           else Inr (seed0 + hash_of lib (of_int \<lfloor>event_time / hf\<rfloor> * hf)))
                      | None \<Rightarrow> Inr (seed0 + hash_of lib event_time)) of
                  Inl e \<Rightarrow> Inl e
                | Inr event_seed \<Rightarrow>
                    (case py_randint rng event_seed actual_min (min actual_max n_total) of
                       Inl e \<Rightarrow> Inl e
                     | Inr n0 \<Rightarrow>
                         let n = max 1 (min n0 n_total);
                             selected = sample_of lib event_seed actual_min (min actual_max n_total)
                                          lights (nat n)
                         in Inr (map (\<lambda>l. \<lparr>whole = whole hap, part = part hap,
                                            hap_value = expanded_value (hap_value hap) l\<rparr>)
                                   selected)))"

definition query_pick :: "py_random \<Rightarrow> pick_library \<Rightarrow> LightPattern \<Rightarrow> count_arg \<Rightarrow> count_arg \<Rightarrow>
    int option \<Rightarrow> rat option \<Rightarrow> LightPattern" where
  "query_pick rng lib p min_n max_n seed hold_frac = (\<lambda>sp ctx.
     case p sp ctx of
       Inl e \<Rightarrow> Inl e
     | Inr haps \<Rightarrow>
         (case collect (map (pick_hap rng lib min_n max_n seed hold_frac ctx) haps) of
            Inl e \<Rightarrow> Inl e
          | Inr parts \<Rightarrow> Inr (concat parts)))"

text \<open>\<^verbatim>\<open>pick(min_n, max_n, seed, hold)\<close>: \<open>max_n\<close> defaults to \<open>min_n\<close>, \<open>hold\<close> is rounded to a
  denominator of at most 1000.\<close>

definition pick :: "py_random \<Rightarrow> pick_library \<Rightarrow> LightPattern \<Rightarrow> count_arg \<Rightarrow> count_arg option \<Rightarrow>
    int option \<Rightarrow> rat option \<Rightarrow> py_error + LightPattern" where
  "pick rng lib p min_n max_n seed hold =
     (let max_n' = (case max_n of None \<Rightarrow> min_n | Some m \<Rightarrow> m) in
      case hold of
        None \<Rightarrow> Inr (query_pick rng lib p min_n max_n' seed None)
      | Some h \<Rightarrow>
          (case limit_denominator h 1000 of
             Inl e \<Rightarrow> Inl e
           | Inr hold_frac \<Rightarrow> Inr (query_pick rng lib p min_n max_n' seed (Some hold_frac))))"

text \<open>\<^verbatim>\<open>LightValue.with_color_ref\<close>, which the \<^verbatim>\<open>color\<close> transform uses for a palette reference.\<close>

definition with_color_ref :: "LightValue \<Rightarrow> PaletteRef \<Rightarrow> LightValue" where
  "with_color_ref v ref =
     \<lparr>light_id = light_id v, group = group v, color = None, color_ref = Some ref,
      intensity = intensity v, envelope = envelope v, modulator = modulator v\<rparr>"

section \<open>Colour resolution in the scheduler (scheduler.py)\<close>

text \<open>\<^verbatim>\<open>PatternScheduler._resolve_color\<close>, with the scheduler's palette and default colour.\<close>

definition resolve_color :: "py_random \<Rightarrow> int \<Rightarrow> Palette option \<Rightarrow> HSV \<Rightarrow> HSV option \<Rightarrow>
    PaletteRef option \<Rightarrow> int \<Rightarrow> rat \<Rightarrow> py_error + HSV" where
  "resolve_color rng os_seed pal default_color col col_ref event_index cycle_position =
     (case col of
        Some c \<Rightarrow> Inr c
      | None \<Rightarrow>
          (case (col_ref, pal) of
             (Some ref, Some pl) \<Rightarrow> resolve rng os_seed ref pl event_index (Some cycle_position) None
           | _ \<Rightarrow> Inr default_color))"

text \<open>
  What it means for a per-light event \<open>h\<close> to come from the source event \<open>src\<close> as the
  claim describes: colour, intensity, envelope and modulator are the source's, the
  target is one light, and there is no palette reference.
\<close>

definition carries_over :: "LightHap \<Rightarrow> LightHap \<Rightarrow> bool" where
  "carries_over src h =
     (color (hap_value h) = color (hap_value src)
      \<and> intensity (hap_value h) = intensity (hap_value src)
      \<and> envelope (hap_value h) = envelope (hap_value src)
      \<and> modulator (hap_value h) = modulator (hap_value src)
      \<and> color_ref (hap_value h) = None
      \<and> group (hap_value h) = None
      \<and> light_id (hap_value h) \<noteq> None)"

text \<open>
  \<^verbatim>\<open>LightPattern.color(ref)\<close> for a palette reference as the only argument: every event
  gets \<^verbatim>\<open>h.value.with_color_ref(ref)\<close>.
\<close>

definition color_with_ref :: "LightPattern \<Rightarrow> PaletteRef \<Rightarrow> LightPattern" where
  "color_with_ref p base_ref = (\<lambda>sp ctx.
     case p sp ctx of
       Inl e \<Rightarrow> Inl e
     | Inr haps \<Rightarrow> Inr (map (\<lambda>h. \<lparr>whole = whole h, part = part h,
                                    hap_value = with_color_ref (hap_value h) base_ref\<rparr>) haps))"

text \<open>
  \<^verbatim>\<open>light("all").color(palette.random_hold(4))\<close>, its one event in cycle 0, and stand-ins
  for the two library functions of \<open>pick\<close>.
\<close>

definition all_held :: LightPattern where
  "all_held = color_with_ref (light [(0, 1, None, Some ''all'')]) (random_hold 4)"

definition all_held_event :: LightHap where
  "all_held_event =
     \<lparr>whole = Some (span 0 1), part = span 0 1,
      hap_value = with_color_ref (light_value None (Some ''all'')) (random_hold 4)\<rparr>"

definition demo_lib :: pick_library where
  "demo_lib = \<lparr>hash_of = (\<lambda>q. fst (quotient_of q)), sample_of = (\<lambda>seed a b lights n. take n lights)\<rparr>"

section \<open>The scheduler (scheduler.py, lights/effects.py)\<close>

text \<open>
  \<^verbatim>\<open>RGB.from_hsv\<close> calls \<^verbatim>\<open>colorsys.hsv_to_rgb\<close> of Python's standard library, modelled
  after the library's code.
\<close>

record RGB =
  rgb_r :: int
  rgb_g :: int
  rgb_b :: int

definition hsv_to_rgb :: "real \<Rightarrow> real \<Rightarrow> real \<Rightarrow> real \<times> real \<times> real" where
  "hsv_to_rgb h s v =
     (if s = 0 then (v, v, v)
      else let i = py_int (h * 6);
               f = h * 6 - of_int i;
               p = v * (1 - s);
               q = v * (1 - s * f);
               t = v * (1 - s * (1 - f));
               i' = i mod 6
           in if i' = 0 then (v, t, p)
              else if i' = 1 then (q, v, p)
              else if i' = 2 then (p, v, t)
              else if i' = 3 then (p, q, v)
              else if i' = 4 then (t, p, v)
              else (v, p, q))"

definition RGB_from_hsv :: "real \<Rightarrow> real \<Rightarrow> real \<Rightarrow> RGB" where
  "RGB_from_hsv h s v =
     (case hsv_to_rgb (frac h) s v of
        (r', g', b') \<Rightarrow> \<lparr>rgb_r = py_int (r' * 255), rgb_g = py_int (g' * 255), rgb_b = py_int (b' * 255)\<rparr>)"

definition RGB_black :: RGB where
  "RGB_black = \<lparr>rgb_r = 0, rgb_g = 0, rgb_b = 0\<rparr>"

record ActiveEvent =
  ae_hap :: LightHap
  start_cycle :: real

text \<open>
  The scheduler object. \<open>light_context\<close> is \<^verbatim>\<open>self.context\<close> and \<open>sched_cycle_beats\<close> is \<^verbatim>\<open>self.cycle_beats\<close>; it and the beat
  position are floats that the code converts with \<^verbatim>\<open>Fraction(...)\<close>, which is exact, so
  both are modelled as fractions. \<open>active_events\<close> is the dictionary
  \<^verbatim>\<open>self._active_events\<close> in insertion order.
\<close>

record PatternScheduler =
  pattern :: LightPattern
  light_context :: LightContext
  default_color :: HSV
  sched_cycle_beats :: rat
  palette :: "Palette option"
  active_events :: "(int \<times> ActiveEvent) list"

text \<open>\<^verbatim>\<open>PatternScheduler.__init__\<close>: the default colour is red unless given.\<close>

definition PatternScheduler_new :: "LightPattern \<Rightarrow> LightContext \<Rightarrow> HSV option \<Rightarrow> rat \<Rightarrow>
    Palette option \<Rightarrow> PatternScheduler" where
  "PatternScheduler_new p ctx dflt cb pal =
     \<lparr>pattern = p, light_context = ctx,
      default_color = (case dflt of Some c \<Rightarrow> c | None \<Rightarrow> HSV_new 0 1 1),
      sched_cycle_beats = cb, palette = pal, active_events = []\<rparr>"

text \<open>Assignment to a dictionary key: an existing key keeps its place, a new one goes last.\<close>

fun dict_set :: "'k \<Rightarrow> 'v \<Rightarrow> ('k \<times> 'v) list \<Rightarrow> ('k \<times> 'v) list" where
  "dict_set k v [] = [(k, v)]"
| "dict_set k v ((k', v') # kvs) = (if k = k' then (k, v) # kvs else (k', v') # dict_set k v kvs)"

text \<open>One slot of an envelope colour: the literal, else the reference resolved against the palette.\<close>

definition envelope_slot :: "py_random \<Rightarrow> int \<Rightarrow> Palette option \<Rightarrow> HSV option \<Rightarrow> PaletteRef option \<Rightarrow>
    int \<Rightarrow> rat \<Rightarrow> py_error + HSV option" where
  "envelope_slot rng os_seed pal lit ref event_index cycle_position =
     (case lit of
        Some c \<Rightarrow> Inr (Some c)
      | None \<Rightarrow>
          (case (ref, pal) of
             (Some rf, Some pl) \<Rightarrow>
               (case resolve rng os_seed rf pl event_index (Some cycle_position) None of
                  Inl e \<Rightarrow> Inl e
                | Inr c \<Rightarrow> Inr (Some c))
           | _ \<Rightarrow> Inr None))"

text \<open>\<^verbatim>\<open>PatternScheduler._get_envelope_color\<close>.\<close>

definition get_envelope_color :: "py_random \<Rightarrow> int \<Rightarrow> Palette option \<Rightarrow> Envelope \<Rightarrow> real \<Rightarrow> HSV \<Rightarrow>
    int \<Rightarrow> rat \<Rightarrow> py_error + HSV" where
  "get_envelope_color rng os_seed pal env time_in_event base_color event_index cycle_position =
     (case envelope_slot rng os_seed pal (flash_color env) (flash_ref env) event_index cycle_position of
        Inl e \<Rightarrow> Inl e
      | Inr flash \<Rightarrow>
          (case envelope_slot rng os_seed pal (fade_color env) (fade_ref env) event_index cycle_position of
             Inl e \<Rightarrow> Inl e
           | Inr fade \<Rightarrow>
               Inr (if time_in_event < attack env then
                      (case flash of
                         Some c \<Rightarrow> c
                       | None \<Rightarrow> (case fade of Some c \<Rightarrow> c | None \<Rightarrow> base_color))
                    else
                      (case fade of
                         Some fc \<Rightarrow>
                           (case flash of
                              Some flc \<Rightarrow>
                                (if decay env > 0 \<and> time_in_event - attack env < decay env
                                 then interpolate_hsv flc fc ((time_in_event - attack env) / decay env)
                                 else fc)
                            | None \<Rightarrow> fc)
                       | None \<Rightarrow> (case flash of Some c \<Rightarrow> c | None \<Rightarrow> base_color)))))"

text \<open>
  The colour and the intensity of an event at a time: the part of the loop bodies from
  the base colour to \<^verbatim>\<open>intensity = hap.value.intensity * envelope_intensity *
  modulator_intensity\<close>, which the frame loop and the tail loop share word for word.
\<close>

definition rendered :: "py_random \<Rightarrow> int \<Rightarrow> PatternScheduler \<Rightarrow> rat \<Rightarrow> LightValue \<Rightarrow> real \<Rightarrow> int \<Rightarrow>
    py_error + (HSV \<times> real)" where
  "rendered rng os_seed S cycle_position v time_in_event event_index =
     (case resolve_color rng os_seed (palette S) (default_color S) (color v) (color_ref v)
             event_index cycle_position of
        Inl e \<Rightarrow> Inl e
      | Inr base_color \<Rightarrow>
          (case (case envelope v of
                   Some env \<Rightarrow>
                     (case get_envelope_color rng os_seed (palette S) env time_in_event base_color
                             event_index cycle_position of
                        Inl e \<Rightarrow> Inl e
                      | Inr c \<Rightarrow> Inr (get_intensity env time_in_event, c))
                 | None \<Rightarrow> Inr (1, base_color)) of
             Inl e \<Rightarrow> Inl e
           | Inr (envelope_intensity, col) \<Rightarrow>
               let mod_intensity = (case modulator v of
                                      Some m \<Rightarrow> modulator_intensity m (of_rat cycle_position)
                                    | None \<Rightarrow> 1)
               in Inr (col, intensity v * envelope_intensity * mod_intensity)))"

text \<open>The state of one call: the two local dictionaries and the tracker.\<close>

record frame =
  fr_colors :: "int \<rightharpoonup> RGB"
  fr_intensities :: "int \<rightharpoonup> real"
  fr_active :: "(int \<times> ActiveEvent) list"

text \<open>
  What the first loop finds for one light of one event: nothing (light out of range,
  event not active, intensity under the threshold 0.01) or the colour and intensity to
  offer to the HTP rule.
\<close>

definition light_candidate :: "py_random \<Rightarrow> int \<Rightarrow> PatternScheduler \<Rightarrow> rat \<Rightarrow> nat \<Rightarrow> LightHap \<Rightarrow> int \<Rightarrow>
    py_error + (HSV \<times> real) option" where
  "light_candidate rng os_seed S cycle_position hap_idx hap l =
     (if l < 0 \<or> l \<ge> num_lights (light_context S) then Inr None
      else
        let current_time = of_rat cycle_position;
            event_span = whole_or_part hap;
            event_start = of_rat (ts_start event_span)
        in if contains event_span cycle_position then
             (let time_in_event = current_time - event_start in
              case rendered rng os_seed S cycle_position (hap_value hap) time_in_event (int hap_idx) of
                Inl e \<Rightarrow> Inl e
              | Inr (col, inten) \<Rightarrow> if inten < 1 / 100 then Inr None else Inr (Some (col, inten)))
           else Inr None)"

text \<open>HTP: write only when the light has no intensity yet or the new one is strictly greater.\<close>

definition htp_write :: "frame \<Rightarrow> int \<Rightarrow> HSV \<Rightarrow> real \<Rightarrow> frame" where
  "htp_write fr l col inten =
     (if fr_intensities fr l = None \<or> inten > the (fr_intensities fr l)
      then fr\<lparr>fr_colors := (fr_colors fr)(l \<mapsto> RGB_from_hsv (hue col) (saturation col) inten),
              fr_intensities := (fr_intensities fr)(l \<mapsto> inten)\<rparr>
      else fr)"

definition track :: "frame \<Rightarrow> int \<Rightarrow> LightHap \<Rightarrow> frame" where
  "track fr l hap =
     fr\<lparr>fr_active := dict_set l \<lparr>ae_hap = hap, start_cycle = of_rat (ts_start (whole_or_part hap))\<rparr>
                         (fr_active fr)\<rparr>"

fun lights_loop :: "py_random \<Rightarrow> int \<Rightarrow> PatternScheduler \<Rightarrow> rat \<Rightarrow> nat \<Rightarrow> LightHap \<Rightarrow> int list \<Rightarrow>
    frame \<Rightarrow> py_error + frame" where
  "lights_loop rng os_seed S cp hap_idx hap [] fr = Inr fr"
| "lights_loop rng os_seed S cp hap_idx hap (l # ls) fr =
     (case light_candidate rng os_seed S cp hap_idx hap l of
        Inl e \<Rightarrow> Inl e
      | Inr None \<Rightarrow> lights_loop rng os_seed S cp hap_idx hap ls fr
      | Inr (Some (col, inten)) \<Rightarrow>
          lights_loop rng os_seed S cp hap_idx hap ls (track (htp_write fr l col inten) l hap))"

text \<open>The lights of an event; an event with neither a light id nor a group name is skipped.\<close>

definition hap_light_ids :: "LightContext \<Rightarrow> LightHap \<Rightarrow> int list option" where
  "hap_light_ids ctx hap =
     (case light_id (hap_value hap) of
        Some l \<Rightarrow> Some [l]
      | None \<Rightarrow>
          (case group (hap_value hap) of
             Some g \<Rightarrow> (if g = [] then None else Some (resolve_group ctx g))
           | None \<Rightarrow> None))"

fun haps_loop :: "py_random \<Rightarrow> int \<Rightarrow> PatternScheduler \<Rightarrow> rat \<Rightarrow> (nat \<times> LightHap) list \<Rightarrow>
    frame \<Rightarrow> py_error + frame" where
  "haps_loop rng os_seed S cp [] fr = Inr fr"
| "haps_loop rng os_seed S cp ((hap_idx, hap) # rest) fr =
     (case hap_light_ids (light_context S) hap of
        None \<Rightarrow> haps_loop rng os_seed S cp rest fr
      | Some light_ids \<Rightarrow>
          (case lights_loop rng os_seed S cp hap_idx hap light_ids fr of
             Inl e \<Rightarrow> Inl e
           | Inr fr' \<Rightarrow> haps_loop rng os_seed S cp rest fr'))"

text \<open>
  The second loop, over the tracked events: one entry either leaves the frame alone,
  writes its tail, or is marked as expired.
\<close>

definition tail_step :: "py_random \<Rightarrow> int \<Rightarrow> PatternScheduler \<Rightarrow> rat \<Rightarrow> int \<times> ActiveEvent \<Rightarrow>
    frame \<times> int list \<Rightarrow> py_error + frame \<times> int list" where
  "tail_step rng os_seed S cp entry st =
     (case (entry, st) of
        ((l, active), (fr, expired_events)) \<Rightarrow>
          if fr_colors fr l \<noteq> None then Inr (fr, expired_events)
          else
            (case envelope (hap_value (ae_hap active)) of
               None \<Rightarrow> Inr (fr, expired_events @ [l])
             | Some env \<Rightarrow>
                 let current_time = of_rat cp;
                     active_span = whole_or_part (ae_hap active);
                     time_since_event_start = current_time - of_rat (ts_start active_span);
                     envelope_end_time = of_rat (ts_start active_span) + attack env + decay env
                 in if current_time < envelope_end_time \<and> time_since_event_start \<ge> 0 then
                      (case rendered rng os_seed S cp (hap_value (ae_hap active))
                              time_since_event_start l of
                         Inl e \<Rightarrow> Inl e
                       | Inr (col, inten) \<Rightarrow>
                           if inten < 1 / 100 then Inr (fr, expired_events @ [l])
                           else Inr (htp_write fr l col inten, expired_events))
                    else Inr (fr, expired_events @ [l])))"

fun tails_loop :: "py_random \<Rightarrow> int \<Rightarrow> PatternScheduler \<Rightarrow> rat \<Rightarrow> (int \<times> ActiveEvent) list \<Rightarrow>
    frame \<times> int list \<Rightarrow> py_error + frame \<times> int list" where
  "tails_loop rng os_seed S cp [] st = Inr st"
| "tails_loop rng os_seed S cp (entry # entries) st =
     (case tail_step rng os_seed S cp entry st of
        Inl e \<Rightarrow> Inl e
      | Inr st' \<Rightarrow> tails_loop rng os_seed S cp entries st')"

text \<open>The window that a frame at a beat position queries: 1/50 cycle to each side, not before 0.\<close>

definition frame_position :: "PatternScheduler \<Rightarrow> rat \<Rightarrow> rat" where
  "frame_position S beat_position = beat_position / sched_cycle_beats S"

definition query_window :: "PatternScheduler \<Rightarrow> rat \<Rightarrow> TimeSpan" where
  "query_window S beat_position =
     (let cycle_position = frame_position S beat_position;
          query_margin = 1 / 50;
          query_start = max 0 (cycle_position - query_margin);
          query_end = cycle_position + query_margin
      in span query_start query_end)"

text \<open>
  \<^verbatim>\<open>compute_colors\<close> up to the clean-up of the tracker: the frame before the black fill.
  A raise leaves the function at once; the partly updated tracker it leaves behind is
  not modelled.
\<close>

definition compute_frame :: "py_random \<Rightarrow> int \<Rightarrow> PatternScheduler \<Rightarrow> rat \<Rightarrow> py_error + frame" where
  "compute_frame rng os_seed S beat_position =
     (if sched_cycle_beats S = 0 then Inl ZeroDivisionError
      else
        let cycle_position = frame_position S beat_position in
        case pattern S (query_window S beat_position) (light_context S) of
          Inl e \<Rightarrow> Inl e
        | Inr haps \<Rightarrow>
            (case haps_loop rng os_seed S cycle_position (enumerate 0 haps)
                    \<lparr>fr_colors = Map.empty, fr_intensities = Map.empty,
                     fr_active = active_events S\<rparr> of
               Inl e \<Rightarrow> Inl e
             | Inr fr1 \<Rightarrow>
                 (case tails_loop rng os_seed S cycle_position (fr_active fr1) (fr1, []) of
                    Inl e \<Rightarrow> Inl e
                  | Inr (fr2, expired_events) \<Rightarrow>
                      Inr (fr2\<lparr>fr_active :=
                             filter (\<lambda>entry. fst entry \<notin> set expired_events) (fr_active fr2)\<rparr>))))"

text \<open>The last loop: every fixture without a colour becomes black.\<close>

definition fill_black :: "int \<Rightarrow> (int \<rightharpoonup> RGB) \<Rightarrow> (int \<rightharpoonup> RGB)" where
  "fill_black n cols = (\<lambda>i. if 0 \<le> i \<and> i < n \<and> cols i = None then Some RGB_black else cols i)"

text \<open>\<^verbatim>\<open>compute_colors\<close>: the returned dictionary and the scheduler with its updated tracker.\<close>

definition compute_colors :: "py_random \<Rightarrow> int \<Rightarrow> PatternScheduler \<Rightarrow> rat \<Rightarrow>
    py_error + (int \<rightharpoonup> RGB) \<times> PatternScheduler" where
  "compute_colors rng os_seed S beat_position =
     (case compute_frame rng os_seed S beat_position of
        Inl e \<Rightarrow> Inl e
      | Inr fr \<Rightarrow>
          Inr (fill_black (num_lights (light_context S)) (fr_colors fr),
               S\<lparr>active_events := fr_active fr\<rparr>))"

text \<open>
  The terms of the HTP claim. The effective intensity of an event at a cycle position is
  \<^verbatim>\<open>event.intensity * envelope_intensity * modulator_intensity\<close>; an event targets a light
  when the light is a fixture and is the event's light or in its group; the active
  intensities of a light are those of the queried events whose span contains the
  position; the visible ones are those that reach the threshold 0.01.
\<close>

definition effective_intensity :: "rat \<Rightarrow> LightHap \<Rightarrow> real" where
  "effective_intensity cp hap =
     (let v = hap_value hap;
          time_in_event = of_rat cp - of_rat (ts_start (whole_or_part hap))
      in intensity v
         * (case envelope v of Some env \<Rightarrow> get_intensity env time_in_event | None \<Rightarrow> 1)
         * (case modulator v of Some m \<Rightarrow> modulator_intensity m (of_rat cp) | None \<Rightarrow> 1))"

definition targets :: "LightContext \<Rightarrow> LightHap \<Rightarrow> int \<Rightarrow> bool" where
  "targets ctx hap l =
     (0 \<le> l \<and> l < num_lights ctx
      \<and> (case hap_light_ids ctx hap of Some ls \<Rightarrow> l \<in> set ls | None \<Rightarrow> False))"

definition active_intensities :: "LightContext \<Rightarrow> rat \<Rightarrow> LightHap list \<Rightarrow> int \<Rightarrow> real list" where
  "active_intensities ctx cp haps l =
     map (effective_intensity cp) (filter (\<lambda>h. contains (whole_or_part h) cp \<and> targets ctx h l) haps)"

definition visible_intensities :: "LightContext \<Rightarrow> rat \<Rightarrow> LightHap list \<Rightarrow> int \<Rightarrow> real list" where
  "visible_intensities ctx cp haps l = filter (\<lambda>i. 1 / 100 \<le> i) (active_intensities ctx cp haps l)"

text \<open>The intensity recorded for a light after one more offer.\<close>

definition htp_max :: "real option \<Rightarrow> real \<Rightarrow> real option" where
  "htp_max m i = (case m of None \<Rightarrow> Some i | Some j \<Rightarrow> if i > j then Some i else Some j)"

definition lights_up :: "PatternScheduler \<Rightarrow> rat \<Rightarrow> LightHap \<Rightarrow> int \<Rightarrow> bool" where
  "lights_up S cp hap l =
     (0 \<le> l \<and> l < num_lights (light_context S) \<and> contains (whole_or_part hap) cp
      \<and> 1 / 100 \<le> effective_intensity cp hap)"


definition seen :: "PatternScheduler \<Rightarrow> rat \<Rightarrow> int \<Rightarrow> LightHap \<Rightarrow> bool" where
  "seen S cp l h =
     (contains (whole_or_part h) cp \<and> targets (light_context S) h l \<and> 1 / 100 \<le> effective_intensity cp h)"


text \<open>
  Invariants of a frame. A light is painted when its colour and its recorded intensity
  were written together: no intensity and no colour, or an intensity \<open>i\<close> and a colour made
  by \<^verbatim>\<open>RGB.from_hsv(hue, saturation, i)\<close>.
\<close>

definition painted :: "frame \<Rightarrow> int \<Rightarrow> bool" where
  "painted fr l =
     ((fr_intensities fr l = None \<longrightarrow> fr_colors fr l = None)
      \<and> (\<forall>i. fr_intensities fr l = Some i \<longrightarrow>
            (\<exists>col :: HSV. fr_colors fr l = Some (RGB_from_hsv (hue col) (saturation col) i))))"

definition consistent :: "frame \<Rightarrow> bool" where
  "consistent fr = (\<forall>l. painted fr l)"

text \<open>The fixture ids, \<^verbatim>\<open>range(num_lights)\<close>.\<close>

definition fixture :: "PatternScheduler \<Rightarrow> int \<Rightarrow> bool" where
  "fixture S l = (0 \<le> l \<and> l < num_lights (light_context S))"

text \<open>
  What keeps colour resolution from raising: a palette reference of a hold or blend mode
  has a hold time other than zero (the code divides by it), and the palette is not empty
  (its constructor sees to that).
\<close>

definition ref_ok :: "PaletteRef \<Rightarrow> bool" where
  "ref_ok ref = (mode ref = INDEX \<or> mode ref = RANDOM \<or> mode ref = CYCLE \<or> hold_beats ref \<noteq> 0)"

definition opt_ref_ok :: "PaletteRef option \<Rightarrow> bool" where
  "opt_ref_ok r = (case r of None \<Rightarrow> True | Some ref \<Rightarrow> ref_ok ref)"

definition refs_ok :: "LightValue \<Rightarrow> bool" where
  "refs_ok v =
     (opt_ref_ok (color_ref v)
      \<and> (case envelope v of
            None \<Rightarrow> True
          | Some env \<Rightarrow> opt_ref_ok (flash_ref env) \<and> opt_ref_ok (fade_ref env)))"

definition palette_ok :: "Palette option \<Rightarrow> bool" where
  "palette_ok pal = (case pal of None \<Rightarrow> True | Some pl \<Rightarrow> colors pl \<noteq> [])"

text \<open>A tracked event is in order when its light is a fixture and its references are fine.\<close>

definition entry_ok :: "PatternScheduler \<Rightarrow> int \<times> ActiveEvent \<Rightarrow> bool" where
  "entry_ok S entry = (fixture S (fst entry) \<and> refs_ok (hap_value (ae_hap (snd entry))))"

text \<open>What the frame loop may touch: written colours stay, new ones and tracked lights are
  fixtures that have a colour, tracked events are given or come from the query.\<close>

definition grows :: "PatternScheduler \<Rightarrow> LightHap set \<Rightarrow> frame \<Rightarrow> frame \<Rightarrow> bool" where
  "grows S hs fr fr' =
     ((\<forall>k. fr_colors fr k \<noteq> None \<longrightarrow> fr_colors fr' k \<noteq> None)
      \<and> (\<forall>k. fr_colors fr' k \<noteq> None \<longrightarrow> fr_colors fr k \<noteq> None \<or> fixture S k)
      \<and> (\<forall>e \<in> set (fr_active fr'). e \<in> set (fr_active fr)
            \<or> (fixture S (fst e) \<and> fr_colors fr' (fst e) \<noteq> None \<and> ae_hap (snd e) \<in> hs)))"

text \<open>What the tail loop may touch: lights that have a colour keep it, new colours go to
  tracked lights, the tracker itself stays.\<close>

definition settles :: "int set \<Rightarrow> frame \<Rightarrow> frame \<Rightarrow> bool" where
  "settles ks fr fr' =
     (fr_active fr' = fr_active fr
      \<and> (\<forall>k. fr_colors fr k \<noteq> None \<longrightarrow>
            fr_colors fr' k = fr_colors fr k \<and> fr_intensities fr' k = fr_intensities fr k)
      \<and> (\<forall>k. fr_colors fr' k \<noteq> None \<longrightarrow> fr_colors fr k \<noteq> None \<or> k \<in> ks))"

text \<open>The frame before the first loop.\<close>

definition empty_frame :: "PatternScheduler \<Rightarrow> frame" where
  "empty_frame S = \<lparr>fr_colors = Map.empty, fr_intensities = Map.empty, fr_active = active_events S\<rparr>"

text \<open>
  The conditions under which a frame cannot raise, for a scheduler and the events that
  its pattern returns for the frame's window. The last one is an invariant of the
  tracker: it holds of a new scheduler and every frame keeps it.
\<close>

definition well_formed :: "PatternScheduler \<Rightarrow> LightHap list \<Rightarrow> bool" where
  "well_formed S haps =
     (sched_cycle_beats S \<noteq> 0 \<and> palette_ok (palette S)
      \<and> list_all (\<lambda>h. refs_ok (hap_value h)) haps
      \<and> list_all (entry_ok S) (active_events S))"


text \<open>
  \<^verbatim>\<open>stack\<close> (dsl/constructors.py) and \<^verbatim>\<open>LightPattern.intensity\<close>, to build concrete
  schedulers: two stacked layers for the HTP rule, one dim light, and a palette reference
  with a hold time of zero.
\<close>

definition stack :: "LightPattern list \<Rightarrow> LightPattern" where
  "stack patterns =
     (if patterns = [] then light []
      else if length patterns = 1 then hd patterns
      else (\<lambda>sp ctx.
        case collect (map (\<lambda>p. p sp ctx) patterns) of
          Inl e \<Rightarrow> Inl e
        | Inr parts \<Rightarrow> Inr (concat parts)))"

definition intensity_p :: "LightPattern \<Rightarrow> real \<Rightarrow> LightPattern" where
  "intensity_p p v = (\<lambda>sp ctx.
     case p sp ctx of
       Inl e \<Rightarrow> Inl e
     | Inr haps \<Rightarrow> Inr (map (\<lambda>h. \<lparr>whole = whole h, part = part h,
                                    hap_value = (hap_value h)\<lparr>intensity := v\<rparr>\<rparr>) haps))"

definition all_half :: LightHap where
  "all_half = \<lparr>whole = Some (span 0 1), part = span 0 (1 / 50),
     hap_value = (light_value None (Some ''all''))\<lparr>intensity := 1 / 2\<rparr>\<rparr>"

definition zero_full :: LightHap where
  "zero_full = \<lparr>whole = Some (span 0 1), part = span 0 (1 / 50),
     hap_value = light_value (Some 0) None\<rparr>"

definition zero_dim :: LightHap where
  "zero_dim = \<lparr>whole = Some (span 0 1), part = span 0 (1 / 50),
     hap_value = (light_value (Some 0) None)\<lparr>intensity := 1 / 200\<rparr>\<rparr>"

definition all_held_zero :: LightHap where
  "all_held_zero = \<lparr>whole = Some (span 0 1), part = span 0 (1 / 50),
     hap_value = with_color_ref (light_value None (Some ''all'')) (random_hold 0)\<rparr>"

definition layered :: PatternScheduler where
  "layered = PatternScheduler_new
     (stack [intensity_p (light [(0, 1, None, Some ''all'')]) (1 / 2), light [(0, 1, Some 0, None)]])
     two_lights None 4 None"

definition dimmed :: PatternScheduler where
  "dimmed = PatternScheduler_new (intensity_p (light [(0, 1, Some 0, None)]) (1 / 200))
     two_lights None 4 None"

definition held_zero :: PatternScheduler where
  "held_zero = PatternScheduler_new
     (color_with_ref (light [(0, 1, None, Some ''all'')]) (random_hold 0))
     two_lights None 4 (Some red_blue)"

text \<open>
  The order in which \<open>shuffle\<close> lists the time slots of a cycle: two or more events are
  sorted by the key, fewer are left alone.
\<close>

definition slot_order :: "LightHap list \<Rightarrow> LightHap list" where
  "slot_order haps = (if length haps \<le> 1 then haps else sort_key shuffle_key haps)"

text \<open>A stand-in generator and a four-step pattern, "0 1 2 3", used as concrete inputs.\<close>

definition demo_rng :: py_random where
  "demo_rng seed k n = nat \<bar>seed\<bar> + k + 1"

definition four_steps :: LightPattern where
  "four_steps = light [(0, 1 / 4, Some 0, None), (1 / 4, 1 / 2, Some 1, None),
     (1 / 2, 3 / 4, Some 2, None), (3 / 4, 1, Some 3, None)]"

text \<open>
  \<^verbatim>\<open>light("0 1").early(1)\<close>, the two-step pattern moved one cycle earlier: it has the same
  two steps in every cycle and answers queries before time zero from the cycle after.
\<close>

definition early_steps :: LightPattern where
  "early_steps = query_early light_zero_one 1"

section \<open>Envelope intensity\<close>

lemma get_intensity_attack_short:
  "0 \<le> t \<Longrightarrow> t < attack e \<Longrightarrow> attack e \<le> 5 / 100 \<Longrightarrow> get_intensity e t = 1"
  by (simp add: get_intensity_def Let_def)

lemma get_intensity_attack_long:
  "0 \<le> t \<Longrightarrow> t < attack e \<Longrightarrow> 5 / 100 < attack e \<Longrightarrow>
   get_intensity e t = max (1 / 10) (t / attack e)"
  by (simp add: get_intensity_def Let_def)

lemma get_intensity_decay:
  "0 \<le> t \<Longrightarrow> attack e \<le> t \<Longrightarrow> t < attack e + decay e \<Longrightarrow>
   get_intensity e t = 1 - ((t - attack e) / decay e) * (1 - sustain e)"
  by (simp add: get_intensity_def Let_def)

lemma get_intensity_sustain:
  "0 \<le> t \<Longrightarrow> attack e \<le> t \<Longrightarrow> attack e + decay e \<le> t \<Longrightarrow> get_intensity e t = sustain e"
  by (simp add: get_intensity_def Let_def)

lemma get_release_linear:
  "0 \<le> t \<Longrightarrow> t < release e \<Longrightarrow>
   get_release_intensity e t = sustain e * (1 - t / release e)"
  by (simp add: get_release_intensity_def Let_def)

lemma get_release_done:
  "0 \<le> t \<Longrightarrow> release e \<le> t \<Longrightarrow> get_release_intensity e t = 0"
  by (simp add: get_release_intensity_def Let_def)

text \<open>
  C5. For an envelope whose decay time is not negative (the data model's invariant),
  \<open>get_intensity\<close> is the piecewise function of the time \<open>t\<close> since the event started:
  1 during a short attack (at most 0.05 cycle), \<open>max 0.1 (t / attack)\<close> during a longer
  attack, the linear ramp from 1 to the sustain level during the decay, and the sustain
  level from \<open>attack + decay\<close> on. \<open>get_release_intensity\<close> falls linearly from the
  sustain level to 0 over the release time and is 0 from the release time on.
\<close>

theorem envelope_piecewise:
  assumes "0 \<le> decay e"
  shows "(0 \<le> t \<and> t < attack e \<and> attack e \<le> 5 / 100 \<longrightarrow> get_intensity e t = 1)
       \<and> (0 \<le> t \<and> t < attack e \<and> 5 / 100 < attack e \<longrightarrow>
            get_intensity e t = max (1 / 10) (t / attack e) \<and> 1 / 10 \<le> get_intensity e t)
       \<and> (0 \<le> t \<and> attack e \<le> t \<and> t < attack e + decay e \<longrightarrow>
            get_intensity e t = 1 - ((t - attack e) / decay e) * (1 - sustain e))
       \<and> (0 \<le> t \<and> attack e + decay e \<le> t \<longrightarrow> get_intensity e t = sustain e)
       \<and> (0 \<le> r \<and> r < release e \<longrightarrow>
            get_release_intensity e r = sustain e * (1 - r / release e))
       \<and> (0 \<le> r \<and> release e \<le> r \<longrightarrow> get_release_intensity e r = 0)"
proof -
  have sus: "0 \<le> t \<and> attack e + decay e \<le> t \<longrightarrow> get_intensity e t = sustain e"
  proof
    assume h: "0 \<le> t \<and> attack e + decay e \<le> t"
    with assms have "attack e \<le> t" by linarith
    with h show "get_intensity e t = sustain e"
      by (simp add: get_intensity_sustain)
  qed
  have long: "0 \<le> t \<and> t < attack e \<and> 5 / 100 < attack e \<longrightarrow>
      get_intensity e t = max (1 / 10) (t / attack e) \<and> 1 / 10 \<le> get_intensity e t"
    by (simp add: get_intensity_attack_long)
  show ?thesis
    using sus long
    by (simp add: get_intensity_attack_short get_intensity_decay
        get_release_linear get_release_done)
qed

text \<open>
  The flash-then-fade envelope of the documentation (attack 0.1, decay 1, sustain 1/2,
  release 2), sampled in each phase.
\<close>

definition demo_envelope :: Envelope where
  "demo_envelope = \<lparr>attack = 1 / 10, decay = 1, sustain = 1 / 2, release = 2,
     flash_color = None, fade_color = None, flash_ref = None, fade_ref = None\<rparr>"

theorem envelope_piecewise_witness:
  "0 \<le> decay demo_envelope
   \<and> get_intensity demo_envelope (1 / 20) = 1 / 2
   \<and> get_intensity demo_envelope (6 / 10) = 3 / 4
   \<and> get_intensity demo_envelope 3 = 1 / 2
   \<and> get_release_intensity demo_envelope 1 = 1 / 4
   \<and> get_release_intensity demo_envelope 2 = 0"
proof -
  have d: "0 \<le> decay demo_envelope" by (simp add: demo_envelope_def)
  show ?thesis
    using envelope_piecewise [OF d, of "1 / 20" 1]
      envelope_piecewise [OF d, of "6 / 10" 2]
      envelope_piecewise [OF d, of 3 1]
    by (simp add: demo_envelope_def)
qed

section \<open>HSV construction\<close>

text \<open>
  C8, as the code has it. The HSV constructor stores its three arguments unchanged.
  Only the update methods normalise: \<open>with_hue\<close> wraps the new hue into \<open>[0, 1)\<close>,
  \<open>with_saturation\<close> and \<open>with_value\<close> clamp the new component into \<open>[0, 1]\<close>, and each
  leaves the other two components as they were.
\<close>

theorem hsv_normalised_by_updates_only:
  "hue (HSV_new h s v) = h \<and> saturation (HSV_new h s v) = s \<and> hsv_value (HSV_new h s v) = v
   \<and> 0 \<le> hue (with_hue c h) \<and> hue (with_hue c h) < 1
   \<and> saturation (with_hue c h) = saturation c \<and> hsv_value (with_hue c h) = hsv_value c
   \<and> unit_range (saturation (with_saturation c s))
   \<and> hue (with_saturation c s) = hue c \<and> hsv_value (with_saturation c s) = hsv_value c
   \<and> unit_range (hsv_value (with_value c v))
   \<and> hue (with_value c v) = hue c \<and> saturation (with_value c v) = saturation c"
  by (simp add: HSV_new_def with_hue_def with_saturation_def with_value_def unit_range_def
      frac_lt_1)

text \<open>
  The claim itself fails: a directly constructed triple keeps out-of-range components,
  and \<open>dim\<close> with a factor above 1 builds a colour whose value exceeds 1.
\<close>

theorem hsv_construction_counterexample:
  "\<not> hsv_in_range (HSV_new (3 / 2) 2 (- 1))
   \<and> hsv_value (dim (HSV_new 0 1 1) 2) = 2
   \<and> \<not> hsv_in_range (dim (HSV_new 0 1 1) 2)"
  by (simp add: HSV_new_def dim_def hsv_in_range_def unit_range_def)

section \<open>Gamma conversion\<close>

lemma gamma_channel_bounds: "0 \<le> gamma_channel x default_gamma \<and> gamma_channel x default_gamma \<le> 1"
proof -
  have "max 0 (min 1 x) \<le> (1::real)" by simp
  moreover have "0 \<le> max 0 (min 1 x)" by simp
  ultimately have "(max 0 (min 1 x)) powr default_gamma \<le> 1"
    by (intro powr_le1) (simp_all add: default_gamma_def)
  then show ?thesis by (simp add: gamma_channel_def)
qed

lemma py_int_nonneg: "0 \<le> x \<Longrightarrow> py_int x = \<lfloor>x\<rfloor>"
  by (simp add: py_int_def)

lemma channel16_floor:
  "py_int (gamma_channel x default_gamma * 65535) = \<lfloor>gamma_channel x default_gamma * 65535\<rfloor>"
  using gamma_channel_bounds [of x] by (simp add: py_int_nonneg)

lemma channel16_range:
  "0 \<le> \<lfloor>gamma_channel x default_gamma * 65535\<rfloor> \<and> \<lfloor>gamma_channel x default_gamma * 65535\<rfloor> \<le> 65535"
proof -
  have "0 \<le> gamma_channel x default_gamma * 65535" "gamma_channel x default_gamma * 65535 \<le> 65535"
    using gamma_channel_bounds [of x] by simp_all
  then show ?thesis by (simp add: floor_le_iff le_floor_iff)
qed

lemma gamma_of_32nd: "gamma_channel (1 / 32) default_gamma = 1 / 2048"
proof -
  have e: "(1 / 2 :: real) powr 5 = 1 / 32" by (simp add: power_divide)
  have m: "5 * (22 / 10) = (11::real)" by simp
  have "((1 / 2 :: real) powr 5) powr (22 / 10) = (1 / 2) powr (5 * (22 / 10))"
    by (rule powr_powr)
  also have "\<dots> = (1 / 2) powr 11" by (simp only: m)
  also have "\<dots> = 1 / 2048" by (simp add: power_divide)
  finally have "(1 / 32 :: real) powr (22 / 10) = 1 / 2048" by (simp only: e)
  then show ?thesis by (simp add: gamma_channel_def default_gamma_def)
qed

text \<open>
  C9, as the code has it. Each 16-bit channel is the clamped value raised to the power
  2.2, scaled to 65535 and truncated by \<^verbatim>\<open>int()\<close>, that is rounded down (the scaled value is
  never negative); it lies in 0..65535.
\<close>

theorem rgb16_truncates:
  "rgb_to_rgb16 r g b default_gamma =
     (\<lfloor>gamma_channel r default_gamma * 65535\<rfloor>,
      \<lfloor>gamma_channel g default_gamma * 65535\<rfloor>,
      \<lfloor>gamma_channel b default_gamma * 65535\<rfloor>)
   \<and> 0 \<le> fst (rgb_to_rgb16 r g b default_gamma)
   \<and> fst (rgb_to_rgb16 r g b default_gamma) \<le> 65535"
  using channel16_range [of r]
  by (simp add: rgb_to_rgb16_def Let_def channel16_floor)

text \<open>
  Rounding to the nearest integer would give 32 for the channel value 1/32, whose
  gamma-corrected scaled value is 65535/2048 = 31.9995...; the code emits 31.
\<close>

theorem rgb16_round_counterexample:
  "fst (rgb_to_rgb16 (1 / 32) 0 1 default_gamma) = 31
   \<and> round (gamma_channel (1 / 32) default_gamma * 65535) = 32"
proof -
  have "py_int ((65535::real) / 2048) = 31"
    by (simp add: py_int_def floor_eq_iff)
  moreover have "round ((65535::real) / 2048) = 32"
    by (simp add: round_def floor_eq_iff)
  ultimately show ?thesis
    by (simp add: rgb_to_rgb16_def Let_def gamma_of_32nd)
qed

section \<open>MIDI special messages\<close>

text \<open>
  C7, as the code has it. Start sets ticks to 0, beats to 1 and the published position
  to 0. Stop changes nothing. Continue does exactly what start does: it also resets the
  beat count to 1 and the published position to 0. A song-position message at the
  sixteenth-note position \<open>pos\<close> sets \<open>beat_count = pos div 4 + 1\<close> and
  \<open>tick_count = (pos mod 4) * 6\<close>, and publishes the matching position.
\<close>

theorem midi_special_messages:
  "tick_count (handle_msg now Start s) = 0
   \<and> beat_count (handle_msg now Start s) = 1
   \<and> es_beat_position (handle_msg now Start s) = 0
   \<and> handle_msg now Stop s = s
   \<and> handle_msg now Continue s = handle_msg now Start s
   \<and> beat_count (handle_msg now (SongPos pos) s) = pos div 4 + 1
   \<and> tick_count (handle_msg now (SongPos pos) s) = (pos mod 4) * 6
   \<and> es_beat_count (handle_msg now (SongPos pos) s) = pos div 4 + 1
   \<and> es_beat_position (handle_msg now (SongPos pos) s) =
       of_int (pos div 4) + of_int ((pos mod 4) * 6) / 24"
  by (simp add: handle_msg_def TICKS_PER_BEAT_def Let_def)

text \<open>
  In the middle of beat 5 a continue message does not leave the beat count and the
  position intact: both are reset.
\<close>

theorem midi_continue_counterexample:
  "beat_count mid_song = 5 \<and> es_beat_position mid_song = 9 / 2
   \<and> beat_count (handle_msg 101 Continue mid_song) = 1
   \<and> es_beat_count (handle_msg 101 Continue mid_song) = 1
   \<and> es_beat_position (handle_msg 101 Continue mid_song) = 0"
  by (simp add: handle_msg_def mid_song_def)

section \<open>Time scaling\<close>

declare ld_loop.simps [simp del]

declare double_until.simps [simp del]

lemma span_sel [simp]: "ts_start (span a b) = a" "ts_end (span a b) = b"
  by (simp_all add: span_def)



lemma span_eta: "span (ts_start s) (ts_end s) = s"
  by (simp add: span_def)





lemma limit_denominator_small:
  "snd (quotient_of x) \<le> 1000 \<Longrightarrow> limit_denominator x 1000 = Inr x"
  by (auto simp: limit_denominator_def split: prod.splits)


subsection \<open>The cycles of a notation pattern\<close>









lemma light_zero_one_two_cycles:
  "light_zero_one (span 0 2) two_lights =
     Inr [hap_at 0 (1 / 2) 0 (1 / 2) 0, hap_at (1 / 2) 1 (1 / 2) 1 1,
          hap_at 1 (3 / 2) 1 (3 / 2) 0, hap_at (3 / 2) 2 (3 / 2) 2 1]"
  by code_simp












section \<open>Shuffle\<close>

lemma length_swap_at [simp]: "length (swap_at xs i j) = length xs"
  by (simp add: swap_at_def)

lemma mset_swap_at: "i < length xs \<Longrightarrow> j < length xs \<Longrightarrow> mset (swap_at xs i j) = mset xs"
  unfolding swap_at_def by (simp add: mset_swap)

lemma fold_swap_props:
  "\<forall>i \<in> set is. i < length xs \<Longrightarrow>
   length (fold (\<lambda>i ys. swap_at ys i (f i mod Suc i)) is xs) = length xs
   \<and> mset (fold (\<lambda>i ys. swap_at ys i (f i mod Suc i)) is xs) = mset xs"
proof (induction "is" arbitrary: xs)
  case Nil
  then show ?case by simp
next
  case (Cons i "is")
  have i: "i < length xs" using Cons.prems by simp
  have j: "f i mod Suc i < length xs" using i by (meson le_less_trans mod_less_divisor less_Suc_eq_le zero_less_Suc)
  have "\<forall>k \<in> set is. k < length (swap_at xs i (f i mod Suc i))" using Cons.prems by simp
  from Cons.IH [OF this] show ?case using i j by (simp add: mset_swap_at)
qed

lemma py_shuffle_props:
  "length (py_shuffle rng seed xs) = length xs \<and> mset (py_shuffle rng seed xs) = mset xs"
  unfolding py_shuffle_def randbelow_def
  by (rule fold_swap_props) auto

lemma rebuild_timing:
  "length ts = length vs \<Longrightarrow>
   map timing (map (\<lambda>((w, p), v). \<lparr>whole = w, part = p, hap_value = v\<rparr>) (zip ts vs)) = ts"
  by (induction ts vs rule: list_induct2) (auto simp: timing_def split: prod.splits)

lemma rebuild_values:
  "length ts = length vs \<Longrightarrow>
   map hap_value (map (\<lambda>((w, p), v). \<lparr>whole = w, part = p, hap_value = v\<rparr>) (zip ts vs)) = vs"
  by (induction ts vs rule: list_induct2) (auto split: prod.splits)

lemma shuffle_cycle_timing:
  "map timing (shuffle_cycle rng seed c haps) = map timing (slot_order haps)"
proof (cases "length haps \<le> 1")
  case True
  then show ?thesis by (simp add: shuffle_cycle_def slot_order_def)
next
  case False
  have "map (\<lambda>h. (whole h, part h)) xs = map timing xs" for xs
    by (simp add: timing_def)
  then show ?thesis
    using False
    by (simp add: shuffle_cycle_def slot_order_def Let_def rebuild_timing py_shuffle_props
        del: map_map)
qed

lemma shuffle_cycle_values:
  "mset (map hap_value (shuffle_cycle rng seed c haps)) = mset (map hap_value haps)"
proof (cases "length haps \<le> 1")
  case True
  then show ?thesis by (simp add: shuffle_cycle_def)
next
  case False
  have "mset (map hap_value (sort_key shuffle_key haps)) = mset (map hap_value haps)"
    by (metis mset_map mset_sort)
  then show ?thesis
    using False
    by (simp add: shuffle_cycle_def Let_def rebuild_values py_shuffle_props del: map_map)
qed

lemma shuffle_cycle_timing_mset:
  "mset (map timing (shuffle_cycle rng seed c haps)) = mset (map timing haps)"
proof -
  have "mset (map timing (slot_order haps)) = mset (map timing haps)"
    by (simp add: slot_order_def)
  then show ?thesis by (simp add: shuffle_cycle_timing)
qed

lemma inside_cycle_timing: "inside_cycle c h = inside_cycle c \<lparr>whole = None, part = snd (timing h), hap_value = v\<rparr>"
  by (simp add: inside_cycle_def timing_def)

lemma shuffle_cycle_inside:
  assumes "list_all (inside_cycle c') haps"
  shows "list_all (inside_cycle c') (shuffle_cycle rng seed c haps)"
proof -
  have "set (map timing (shuffle_cycle rng seed c haps)) = set (map timing haps)"
    using shuffle_cycle_timing_mset [of rng seed c haps] by (metis set_mset_mset)
  moreover have "inside_cycle c' h \<longleftrightarrow> (\<lambda>t. of_int c' \<le> ts_start (snd t) \<and> ts_start (snd t) < ts_end (snd t)
      \<and> ts_end (snd t) \<le> of_int c' + 1) (timing h)" for h
    by (simp add: inside_cycle_def timing_def)
  ultimately show ?thesis
    using assms unfolding list_all_iff by (metis (no_types, lifting) image_iff list.set_map)
qed

lemma with_part_same: "with_part h (part h) = h"
  by (simp add: with_part_def)

lemma clip_inside:
  "list_all (inside_cycle c) haps \<Longrightarrow> clip_to (cycle_span c) haps = haps"
proof (induction haps)
  case Nil
  then show ?case by (simp add: clip_to_def)
next
  case (Cons h haps)
  then have h: "inside_cycle c h" and IH: "clip_to (cycle_span c) haps = haps" by simp_all
  have "intersection (part h) (cycle_span c) = Some (part h)"
    using h by (simp add: intersection_def inside_cycle_def cycle_span_def Let_def max_def min_def span_eta)
  then show ?case using IH by (simp add: clip_to_def with_part_same)
qed

lemma clip_next_cycle:
  "list_all (inside_cycle (c + 1)) haps \<Longrightarrow> ts_end w \<le> of_int c + 1 \<Longrightarrow> clip_to w haps = []"
proof (induction haps)
  case Nil
  then show ?case by (simp add: clip_to_def)
next
  case (Cons h haps)
  then have h: "inside_cycle (c + 1) h" and IH: "clip_to w haps = []" by simp_all
  have "intersection (part h) w = None"
    using h Cons.prems(2) by (simp add: intersection_def inside_cycle_def Let_def max_def min_def)
  then show ?case using IH by (simp add: clip_to_def)
qed

lemma py_int_frac_of_int [simp]: "py_int_frac (of_int c) = c"
  by (simp add: py_int_frac_def)

lemma py_int_frac_of_int_add [simp]: "py_int_frac (of_int c + 1) = c + 1"
  using py_int_frac_of_int [of "c + 1"] by simp

lemma py_int_frac_in_cycle:
  "0 \<le> c \<Longrightarrow> of_int c \<le> x \<Longrightarrow> x < of_int c + 1 \<Longrightarrow> py_int_frac x = c"
proof -
  assume c: "0 \<le> c" and lo: "of_int c \<le> x" and hi: "x < of_int c + 1"
  have "0 \<le> x" using c lo by (meson of_int_0_le_iff order_trans)
  moreover have "\<lfloor>x\<rfloor> = c" using lo hi by (simp add: floor_eq_iff)
  ultimately show ?thesis by (simp add: py_int_frac_def)
qed

lemma py_range_two: "py_range c (c + 2) = [c, c + 1]" "py_range c (2 + c) = [c, c + 1]"
  by (simp_all add: py_range_def upto_rec1)

lemma py_range_one: "py_range c (c + 1) = [c]"
  by (simp add: py_range_def)

lemma shuffle_full_cycle:
  assumes "p (cycle_span c) ctx = Inr haps" and "list_all (inside_cycle c) haps"
      and "p (cycle_span (c + 1)) ctx = Inr haps'" and "list_all (inside_cycle (c + 1)) haps'"
  shows "shuffle rng p seed (cycle_span c) ctx = Inr (shuffle_cycle rng seed c haps)"
proof -
  have r: "py_range (py_int_frac (ts_start (cycle_span c))) (py_int_frac (ts_end (cycle_span c)) + 1)
      = [c, c + 1]"
    by (simp add: cycle_span_def py_range_two)
  have a: "clip_to (cycle_span c) (shuffle_cycle rng seed c haps) = shuffle_cycle rng seed c haps"
    using assms(2) by (intro clip_inside shuffle_cycle_inside)
  have "list_all (inside_cycle (c + 1)) (shuffle_cycle rng seed (c + 1) haps')"
    using assms(4) by (rule shuffle_cycle_inside)
  then have b: "clip_to (cycle_span c) (shuffle_cycle rng seed (c + 1) haps') = []"
    by (rule clip_next_cycle) (simp add: cycle_span_def)
  show ?thesis
    unfolding shuffle_def Let_def r using assms(1,3) a b by simp
qed

lemma shuffle_window:
  assumes "p (cycle_span c) ctx = Inr haps" 
      and "p (cycle_span (c + 1)) ctx = Inr haps'" and "list_all (inside_cycle (c + 1)) haps'"
      and "0 \<le> c" and "of_int c \<le> ts_start w" and "ts_start w < ts_end w" and "ts_end w \<le> of_int c + 1"
  shows "shuffle rng p seed w ctx = Inr (clip_to w (shuffle_cycle rng seed c haps))"
proof -
  have s: "py_int_frac (ts_start w) = c"
    using assms(4-7) by (intro py_int_frac_in_cycle) simp_all
  show ?thesis
  proof (cases "ts_end w = of_int c + 1")
    case True
    have "list_all (inside_cycle (c + 1)) (shuffle_cycle rng seed (c + 1) haps')"
      using assms(3) by (rule shuffle_cycle_inside)
    then have b: "clip_to w (shuffle_cycle rng seed (c + 1) haps') = []"
      by (rule clip_next_cycle) (simp add: True)
    have "py_range (py_int_frac (ts_start w)) (py_int_frac (ts_end w) + 1) = [c, c + 1]"
      by (simp add: s True py_range_two)
    then show ?thesis
      unfolding shuffle_def Let_def using assms(1,2) b by simp
  next
    case False
    then have "ts_end w < of_int c + 1" using assms(7) by simp
    moreover have "of_int c \<le> ts_end w" using assms(5,6) by simp
    ultimately have "py_int_frac (ts_end w) = c"
      using assms(4) by (intro py_int_frac_in_cycle)
    then have "py_range (py_int_frac (ts_start w)) (py_int_frac (ts_end w) + 1) = [c]"
      using py_range_one [of c] by (simp add: s)
    then show ?thesis
      unfolding shuffle_def Let_def using assms(1) by simp
  qed
qed

text \<open>
  C3, as the code has it. Let the full-cycle queries of \<open>p\<close> for the cycles \<open>c\<close> and
  \<open>c + 1\<close> (the two cycles a full-cycle query of \<open>shuffle\<close> visits) return events whose
  parts are not empty and lie inside the queried cycle. Then \<open>p.shuffle()\<close> over the full
  cycle \<open>c\<close> returns events with exactly the \<open>(whole, part)\<close> timings of \<open>p\<close>'s events
  (listed in key order) whose values are a permutation of \<open>p\<close>'s values; and for
  \<open>c \<ge> 0\<close> the query of any non-empty window inside cycle \<open>c\<close> returns that same
  assignment of values to time slots, cut to the window.
\<close>

theorem shuffle_keeps_slots:
  assumes "p (cycle_span c) ctx = Inr haps" and "list_all (inside_cycle c) haps"
      and "p (cycle_span (c + 1)) ctx = Inr haps'" and "list_all (inside_cycle (c + 1)) haps'"
  shows "shuffle rng p seed (cycle_span c) ctx = Inr (shuffle_cycle rng seed c haps)
       \<and> map timing (shuffle_cycle rng seed c haps) = map timing (slot_order haps)
       \<and> mset (map timing (shuffle_cycle rng seed c haps)) = mset (map timing haps)
       \<and> mset (map hap_value (shuffle_cycle rng seed c haps)) = mset (map hap_value haps)
       \<and> (0 \<le> c \<and> of_int c \<le> ts_start w \<and> ts_start w < ts_end w \<and> ts_end w \<le> of_int c + 1
            \<longrightarrow> shuffle rng p seed w ctx = Inr (clip_to w (shuffle_cycle rng seed c haps)))"
proof (intro conjI impI)
  show "shuffle rng p seed (cycle_span c) ctx = Inr (shuffle_cycle rng seed c haps)"
    using assms by (rule shuffle_full_cycle [where p = p and c = c and ctx = ctx])
  show "map timing (shuffle_cycle rng seed c haps) = map timing (slot_order haps)"
    by (rule shuffle_cycle_timing)
  show "mset (map timing (shuffle_cycle rng seed c haps)) = mset (map timing haps)"
    by (rule shuffle_cycle_timing_mset)
  show "mset (map hap_value (shuffle_cycle rng seed c haps)) = mset (map hap_value haps)"
    by (rule shuffle_cycle_values)
  assume "0 \<le> c \<and> of_int c \<le> ts_start w \<and> ts_start w < ts_end w \<and> ts_end w \<le> of_int c + 1"
  then show "shuffle rng p seed w ctx = Inr (clip_to w (shuffle_cycle rng seed c haps))"
    using shuffle_window [where p = p and c = c and ctx = ctx and w = w, OF assms(1,3,4)]
    by simp
qed

lemma four_steps_cycle0:
  "four_steps (cycle_span 0) two_lights =
     Inr [hap_at 0 (1 / 4) 0 (1 / 4) 0, hap_at (1 / 4) (1 / 2) (1 / 4) (1 / 2) 1,
          hap_at (1 / 2) (3 / 4) (1 / 2) (3 / 4) 2, hap_at (3 / 4) 1 (3 / 4) 1 3]"
  by code_simp

lemma four_steps_cycle1:
  "four_steps (cycle_span (0 + 1)) two_lights =
     Inr [hap_at 1 (5 / 4) 1 (5 / 4) 0, hap_at (5 / 4) (3 / 2) (5 / 4) (3 / 2) 1,
          hap_at (3 / 2) (7 / 4) (3 / 2) (7 / 4) 2, hap_at (7 / 4) 2 (7 / 4) 2 3]"
  by code_simp

lemma four_steps_shuffled:
  "shuffle_cycle demo_rng None 0
     [hap_at 0 (1 / 4) 0 (1 / 4) 0, hap_at (1 / 4) (1 / 2) (1 / 4) (1 / 2) 1,
      hap_at (1 / 2) (3 / 4) (1 / 2) (3 / 4) 2, hap_at (3 / 4) 1 (3 / 4) 1 3] =
     [hap_at 0 (1 / 4) 0 (1 / 4) 0, hap_at (1 / 4) (1 / 2) (1 / 4) (1 / 2) 3,
      hap_at (1 / 2) (3 / 4) (1 / 2) (3 / 4) 2, hap_at (3 / 4) 1 (3 / 4) 1 1]"
  by code_simp

text \<open>
  The pattern "0 1 2 3" in cycle 0: the shuffled cycle plays the lights 0, 3, 2, 1 in
  the four unchanged slots, and the window \<open>[1/8, 3/8)\<close> sees the first two of them.
\<close>

theorem shuffle_keeps_slots_witness:
  "four_steps (cycle_span 0) two_lights =
     Inr [hap_at 0 (1 / 4) 0 (1 / 4) 0, hap_at (1 / 4) (1 / 2) (1 / 4) (1 / 2) 1,
          hap_at (1 / 2) (3 / 4) (1 / 2) (3 / 4) 2, hap_at (3 / 4) 1 (3 / 4) 1 3]
   \<and> shuffle demo_rng four_steps None (cycle_span 0) two_lights =
     Inr [hap_at 0 (1 / 4) 0 (1 / 4) 0, hap_at (1 / 4) (1 / 2) (1 / 4) (1 / 2) 3,
          hap_at (1 / 2) (3 / 4) (1 / 2) (3 / 4) 2, hap_at (3 / 4) 1 (3 / 4) 1 1]
   \<and> shuffle demo_rng four_steps None (span (1 / 8) (3 / 8)) two_lights =
     Inr [hap_at 0 (1 / 4) (1 / 8) (1 / 4) 0, hap_at (1 / 4) (1 / 2) (1 / 4) (3 / 8) 3]"
proof -
  have in0: "list_all (inside_cycle 0)
      [hap_at 0 (1 / 4) 0 (1 / 4) 0, hap_at (1 / 4) (1 / 2) (1 / 4) (1 / 2) 1,
       hap_at (1 / 2) (3 / 4) (1 / 2) (3 / 4) 2, hap_at (3 / 4) 1 (3 / 4) 1 3]"
    by (simp add: inside_cycle_def hap_at_def)
  have in1: "list_all (inside_cycle (0 + 1))
      [hap_at 1 (5 / 4) 1 (5 / 4) 0, hap_at (5 / 4) (3 / 2) (5 / 4) (3 / 2) 1,
       hap_at (3 / 2) (7 / 4) (3 / 2) (7 / 4) 2, hap_at (7 / 4) 2 (7 / 4) 2 3]"
    by (simp add: inside_cycle_def hap_at_def)
  have clip: "clip_to (span (1 / 8) (3 / 8))
      [hap_at 0 (1 / 4) 0 (1 / 4) 0, hap_at (1 / 4) (1 / 2) (1 / 4) (1 / 2) 3,
       hap_at (1 / 2) (3 / 4) (1 / 2) (3 / 4) 2, hap_at (3 / 4) 1 (3 / 4) 1 1] =
      [hap_at 0 (1 / 4) (1 / 8) (1 / 4) 0, hap_at (1 / 4) (1 / 2) (1 / 4) (3 / 8) 3]"
    by code_simp
  show ?thesis
    using shuffle_keeps_slots [where p = four_steps and c = 0 and ctx = two_lights
        and rng = demo_rng and seed = None and w = "span (1 / 8) (3 / 8)",
        OF four_steps_cycle0 in0 four_steps_cycle1 in1]
    by (simp add: four_steps_cycle0 four_steps_shuffled clip)
qed

lemma early_steps_window:
  "early_steps (span (- 3 / 4) (- 1 / 4)) two_lights =
     Inr [hap_at (- 1) (- 1 / 2) (- 3 / 4) (- 1 / 2) 0, hap_at (- 1 / 2) 0 (- 1 / 2) (- 1 / 4) 1]"
  by code_simp

lemma early_steps_shuffled_cycle:
  "shuffle demo_rng early_steps None (cycle_span (- 1)) two_lights =
     Inr [hap_at (- 1) (- 1 / 2) (- 1) (- 1 / 2) 1, hap_at (- 1 / 2) 0 (- 1 / 2) 0 0]"
  by code_simp

lemma early_steps_shuffled_window:
  "shuffle demo_rng early_steps None (span (- 3 / 4) (- 1 / 4)) two_lights = Inr []"
  by code_simp

lemma early_steps_late:
  "query_early early_steps (- 1 / 2) (span 0 (1 / 50)) two_lights = Inr [hap_at 0 (1 / 2) 0 (1 / 50) 1]"
  by code_simp

lemma early_steps_shuffled_late:
  "query_early (shuffle demo_rng early_steps None) (- 1 / 2) (span 0 (1 / 50)) two_lights = Inr []"
  by code_simp

text \<open>
  Before time zero the code loses events. \<^verbatim>\<open>int()\<close> truncates towards zero, so
  \<open>shuffle\<close> looks up the window \<open>[-3/4, -1/4)\<close> of cycle \<open>-1\<close> in cycle 0. For
  \<^verbatim>\<open>light("0 1").early(1)\<close> the pattern itself has two events in that window and the
  shuffled full cycle \<open>-1\<close> gives a value to both slots, but the shuffled window returns
  nothing. \<^verbatim>\<open>late\<close> puts such windows under the scheduler's first frame: at the window
  \<open>[0, 1/50)\<close> the pattern under \<^verbatim>\<open>late(0.5)\<close> shows light 1 and its shuffled form under
  \<^verbatim>\<open>late(0.5)\<close> shows no event.
\<close>

theorem shuffle_window_counterexample:
  "early light_zero_one 1 = Inr early_steps
   \<and> early_steps (span (- 3 / 4) (- 1 / 4)) two_lights =
       Inr [hap_at (- 1) (- 1 / 2) (- 3 / 4) (- 1 / 2) 0, hap_at (- 1 / 2) 0 (- 1 / 2) (- 1 / 4) 1]
   \<and> shuffle demo_rng early_steps None (cycle_span (- 1)) two_lights =
       Inr [hap_at (- 1) (- 1 / 2) (- 1) (- 1 / 2) 1, hap_at (- 1 / 2) 0 (- 1 / 2) 0 0]
   \<and> shuffle demo_rng early_steps None (span (- 3 / 4) (- 1 / 4)) two_lights = Inr []
   \<and> late early_steps (1 / 2) = Inr (query_early early_steps (- 1 / 2))
   \<and> late (shuffle demo_rng early_steps None) (1 / 2)
       = Inr (query_early (shuffle demo_rng early_steps None) (- 1 / 2))
   \<and> query_early early_steps (- 1 / 2) (span 0 (1 / 50)) two_lights
       = Inr [hap_at 0 (1 / 2) 0 (1 / 50) 1]
   \<and> query_early (shuffle demo_rng early_steps None) (- 1 / 2) (span 0 (1 / 50)) two_lights
       = Inr []"
proof -
  have l: "limit_denominator (- (1 / 2)) 1000 = Inr (- (1 / 2))"
    by code_simp
  have a: "early light_zero_one 1 = Inr early_steps"
    by (simp add: early_def early_steps_def limit_denominator_small)
  have b: "late early_steps (1 / 2) = Inr (query_early early_steps (- 1 / 2))"
    by (simp add: late_def early_def l)
  have c: "late (shuffle demo_rng early_steps None) (1 / 2)
      = Inr (query_early (shuffle demo_rng early_steps None) (- 1 / 2))"
    by (simp add: late_def early_def l)
  show ?thesis
    by (intro conjI a b c early_steps_window early_steps_shuffled_cycle
        early_steps_shuffled_window early_steps_late early_steps_shuffled_late)
qed

section \<open>Random-hold palette resolution\<close>

lemma shuffled_indices_props:
  "length (shuffled_indices rng pal) = length (colors pal)
   \<and> mset (shuffled_indices rng pal) = mset [0..<length (colors pal)]"
  using py_shuffle_props [of rng 42 "[0..<length (colors pal)]"]
  by (simp add: shuffled_indices_def)









lemma red_blue_shuffled: "shuffled_indices demo_rng red_blue = [0, 1]"
  by code_simp


text \<open>
  Hold times and positions are floats, and a decimal is not the float it is written as.
  The float written 0.1 is 3602879701896397 / 2^55, a little more than 1/10, and the
  float written 0.3 is a little less than 3/10: measured in that hold time, beat 0.3 lies
  in window 2 and beat 0.35 in window 3, so with the palette (red, blue) they resolve to
  red and blue.
\<close>

lemma tenth_beat_windows:
  "\<lfloor>(of_rat (5404319552844595 / 72057594037927936) :: real) * 4
       / (3602879701896397 / 36028797018963968)\<rfloor> = 2
   \<and> \<lfloor>(of_rat (3152519739159347 / 36028797018963968) :: real) * 4
       / (3602879701896397 / 36028797018963968)\<rfloor> = 3
   \<and> resolve demo_rng 0 (random_hold (3602879701896397 / 36028797018963968)) red_blue 0
         (Some (5404319552844595 / 72057594037927936)) None = Inr red
   \<and> resolve demo_rng 0 (random_hold (3602879701896397 / 36028797018963968)) red_blue 0
         (Some (3152519739159347 / 36028797018963968)) None = Inr blue"
  by code_simp

section \<open>Group expansion drops palette references\<close>

lemma collect_Inr_map: "collect rs = Inr xs \<Longrightarrow> rs = map Inr xs"
proof (induction rs arbitrary: xs rule: collect.induct)
  case 1
  then show ?case by simp
next
  case (2 e uu)
  then show ?case by simp
next
  case (3 x rs)
  then obtain ys where "collect rs = Inr ys" "xs = x # ys"
    by (auto split: sum.splits)
  with 3 show ?case by simp
qed

lemma collect_concat_member:
  assumes "collect (map f haps) = Inr parts" and "h' \<in> set (concat parts)"
  shows "\<exists>h \<in> set haps. \<exists>ps. f h = Inr ps \<and> h' \<in> set ps"
proof -
  have m: "map f haps = map Inr parts" using assms(1) by (rule collect_Inr_map)
  from assms(2) obtain ps where ps: "ps \<in> set parts" "h' \<in> set ps" by auto
  then obtain i where i: "i < length parts" "parts ! i = ps" by (auto simp: in_set_conv_nth)
  have len: "length haps = length parts" using m by (metis length_map)
  have "f (haps ! i) = Inr ps"
    using m i len by (metis nth_map)
  moreover have "haps ! i \<in> set haps" using i len by simp
  ultimately show ?thesis using ps(2) by blast
qed

lemma carries_over_expanded:
  "carries_over hap \<lparr>whole = w, part = pt, hap_value = expanded_value (hap_value hap) l\<rparr>"
  by (simp add: carries_over_def expanded_value_def)

lemma seq_lights_members:
  assumes "seq_lights slots ctx sp hap lights = Inr ps" and "h' \<in> set ps"
  shows "carries_over hap h'"
  using assms
  by (auto simp: seq_lights_def Let_def carries_over_expanded split: if_splits sum.splits option.splits)

lemma seq_hap_members:
  assumes "seq_hap slots per_group ctx sp hap = Inr ps" and "h' \<in> set ps"
  shows "(\<not> seq_expands hap \<and> h' = hap) \<or> (seq_expands hap \<and> carries_over hap h')"
proof (cases "seq_expands hap")
  case False
  then show ?thesis using assms by (auto simp: seq_hap_def)
next
  case True
  then obtain parts where c: "collect (map (seq_lights slots ctx sp hap)
      (physical_groups per_group ctx (the (group (hap_value hap))))) = Inr parts"
    and ps: "ps = concat parts"
    using assms(1) by (auto simp: seq_hap_def split: sum.splits)
  from collect_concat_member [OF c] assms(2) ps
  obtain ls qs where "seq_lights slots ctx sp hap ls = Inr qs" "h' \<in> set qs" by blast
  then have "carries_over hap h'" by (rule seq_lights_members)
  then show ?thesis using True by simp
qed

lemma seq_members:
  assumes "seq p slots per_group sp ctx = Inr out" and "p sp ctx = Inr haps" and "h' \<in> set out"
  shows "(h' \<in> set haps \<and> \<not> seq_expands h') \<or> (\<exists>h \<in> set haps. seq_expands h \<and> carries_over h h')"
proof -
  obtain parts where c: "collect (map (seq_hap slots per_group ctx sp) haps) = Inr parts"
    and out: "out = concat parts"
    using assms(1,2) by (auto simp: seq_def split: sum.splits)
  from collect_concat_member [OF c] assms(3) out
  obtain h ps where h: "h \<in> set haps" "seq_hap slots per_group ctx sp h = Inr ps" "h' \<in> set ps"
    by blast
  from seq_hap_members [OF h(2,3)] h(1) show ?thesis by blast
qed

lemma pick_hap_expanded:
  assumes "pick_hap rng lib min_n max_n seed hold ctx hap = Inr ps"
      and "light_id (hap_value hap) = None"
  shows "\<exists>ls. ps = map (\<lambda>l. \<lparr>whole = whole hap, part = part hap,
                                hap_value = expanded_value (hap_value hap) l\<rparr>) ls"
proof -
  define lights where "lights = (if group (hap_value hap) \<noteq> None \<and> group (hap_value hap) \<noteq> Some []
      then resolve_group ctx (the (group (hap_value hap))) else py_range 0 (num_lights ctx))"
  define sd where "sd = (case hold of
      Some hf \<Rightarrow> (if hf = 0 then Inl ZeroDivisionError
                  else Inr ((case seed of Some sd \<Rightarrow> sd | None \<Rightarrow> 0)
                         + hash_of lib (of_int \<lfloor>ts_start (whole_or_part hap) / hf\<rfloor> * hf)))
    | None \<Rightarrow> Inr ((case seed of Some sd \<Rightarrow> sd | None \<Rightarrow> 0)
                   + hash_of lib (ts_start (whole_or_part hap))))"
  have unfold: "pick_hap rng lib min_n max_n seed hold ctx hap =
     (if lights = [] then Inr []
      else case sd of
             Inl e \<Rightarrow> Inl e
           | Inr event_seed \<Rightarrow>
               (case py_randint rng event_seed (resolve_count min_n (int (length lights)))
                       (min (resolve_count max_n (int (length lights))) (int (length lights))) of
                  Inl e \<Rightarrow> Inl e
                | Inr n0 \<Rightarrow>
                    Inr (map (\<lambda>l. \<lparr>whole = whole hap, part = part hap,
                                    hap_value = expanded_value (hap_value hap) l\<rparr>)
                          (sample_of lib event_seed (resolve_count min_n (int (length lights)))
                             (min (resolve_count max_n (int (length lights))) (int (length lights)))
                             lights (nat (max 1 (min n0 (int (length lights)))))))))"
    using assms(2) unfolding pick_hap_def Let_def lights_def sd_def by simp
  show ?thesis
  proof (cases "lights = []")
    case True
    then have "ps = []" using assms(1) unfolding unfold by simp
    then show ?thesis by simp
  next
    case False
    show ?thesis
    proof (cases sd)
      case (Inl e)
      then show ?thesis using assms(1) False unfolding unfold by simp
    next
      case (Inr event_seed)
      show ?thesis
      proof (cases "py_randint rng event_seed (resolve_count min_n (int (length lights)))
                       (min (resolve_count max_n (int (length lights))) (int (length lights)))")
        case (Inl e)
        then show ?thesis using assms(1) False Inr unfolding unfold by simp
      next
        case r: (Inr n0)
        then show ?thesis using assms(1) False Inr unfolding unfold by auto
      qed
    qed
  qed
qed

lemma pick_hap_members:
  assumes "pick_hap rng lib min_n max_n seed hold ctx hap = Inr ps" and "h' \<in> set ps"
  shows "(light_id (hap_value hap) \<noteq> None \<and> h' = hap)
       \<or> (light_id (hap_value hap) = None \<and> carries_over hap h')"
proof (cases "light_id (hap_value hap) = None")
  case False
  then show ?thesis using assms by (auto simp: pick_hap_def)
next
  case True
  from pick_hap_expanded [OF assms(1) True] assms(2)
  have "carries_over hap h'" by (auto simp: carries_over_expanded)
  then show ?thesis using True by simp
qed

lemma pick_members:
  assumes "query_pick rng lib p min_n max_n seed hold sp ctx = Inr out" and "p sp ctx = Inr haps"
      and "h' \<in> set out"
  shows "(h' \<in> set haps \<and> light_id (hap_value h') \<noteq> None)
       \<or> (\<exists>h \<in> set haps. light_id (hap_value h) = None \<and> carries_over h h')"
proof -
  obtain parts where c: "collect (map (pick_hap rng lib min_n max_n seed hold ctx) haps) = Inr parts"
    and out: "out = concat parts"
    using assms(1,2) by (auto simp: query_pick_def split: sum.splits)
  from collect_concat_member [OF c] assms(3) out
  obtain h ps where h: "h \<in> set haps" "pick_hap rng lib min_n max_n seed hold ctx h = Inr ps" "h' \<in> set ps"
    by blast
  from pick_hap_members [OF h(2,3)] h(1) show ?thesis by blast
qed

lemma resolve_color_default:
  "resolve_color rng os pal dflt None None ev cp = Inr dflt"
  by (simp add: resolve_color_def)

text \<open>
  C10. Every event that \<open>seq\<close> returns is either a source event that it does not expand,
  unchanged, or comes from a group-targeted source event with the source's literal
  colour, intensity, envelope and modulator and with no palette reference; the same
  holds for \<open>pick\<close>, which expands the events without a light id. A source event given a
  palette reference by \<open>with_color_ref\<close> has no literal colour, so each event expanded
  from it resolves to the scheduler's default colour.
\<close>

theorem expansion_drops_color_ref:
  "(seq p slots per_group sp ctx = Inr out \<and> p sp ctx = Inr haps \<and> h1 \<in> set out \<longrightarrow>
      (h1 \<in> set haps \<and> \<not> seq_expands h1)
      \<or> (\<exists>h \<in> set haps. seq_expands h \<and> carries_over h h1))
   \<and> (query_pick rng lib p min_n max_n seed hold sp ctx = Inr out' \<and> p sp ctx = Inr haps
        \<and> h2 \<in> set out' \<longrightarrow>
      (h2 \<in> set haps \<and> light_id (hap_value h2) \<noteq> None)
      \<or> (\<exists>h \<in> set haps. light_id (hap_value h) = None \<and> carries_over h h2))
   \<and> (carries_over src h3 \<longrightarrow>
        color_ref (hap_value h3) = None \<and> color (hap_value h3) = color (hap_value src)
        \<and> intensity (hap_value h3) = intensity (hap_value src)
        \<and> envelope (hap_value h3) = envelope (hap_value src)
        \<and> modulator (hap_value h3) = modulator (hap_value src))
   \<and> (carries_over src h3 \<and> hap_value src = with_color_ref v ref \<longrightarrow>
        resolve_color rng os pal dflt (color (hap_value h3)) (color_ref (hap_value h3)) ev cp
          = Inr dflt)"
proof (intro conjI impI)
  assume "seq p slots per_group sp ctx = Inr out \<and> p sp ctx = Inr haps \<and> h1 \<in> set out"
  then show "(h1 \<in> set haps \<and> \<not> seq_expands h1)
      \<or> (\<exists>h \<in> set haps. seq_expands h \<and> carries_over h h1)"
    using seq_members [of p slots per_group sp ctx out haps h1] by simp
next
  assume "query_pick rng lib p min_n max_n seed hold sp ctx = Inr out' \<and> p sp ctx = Inr haps
      \<and> h2 \<in> set out'"
  then show "(h2 \<in> set haps \<and> light_id (hap_value h2) \<noteq> None)
      \<or> (\<exists>h \<in> set haps. light_id (hap_value h) = None \<and> carries_over h h2)"
    using pick_members [of rng lib p min_n max_n seed hold sp ctx out' haps h2] by simp
next
  assume "carries_over src h3 \<and> hap_value src = with_color_ref v ref"
  then show "resolve_color rng os pal dflt (color (hap_value h3)) (color_ref (hap_value h3)) ev cp
      = Inr dflt"
    by (simp add: carries_over_def with_color_ref_def resolve_color_default)
qed (simp_all add: carries_over_def)

lemma all_held_cycle: "all_held (span 0 1) two_lights = Inr [all_held_event]"
  by code_simp

lemma all_held_seq:
  "seq all_held None True (span 0 1) two_lights =
     Inr [hap_at 0 (1 / 4) 0 (1 / 4) 0, hap_at (1 / 4) (1 / 2) (1 / 4) (1 / 2) 1,
          hap_at (1 / 2) (3 / 4) (1 / 2) (3 / 4) 0, hap_at (3 / 4) 1 (3 / 4) 1 1]"
  by code_simp

lemma all_held_pick:
  "query_pick demo_rng demo_lib all_held (CountInt 1) (CountInt 1) None None (span 0 1) two_lights =
     Inr [hap_at 0 1 0 1 0]"
  by code_simp

text \<open>
  \<^verbatim>\<open>light("all").color(palette.random_hold(4))\<close> on two lights, with the palette
  (red, blue) and the default colour red. At cycle position 1 the source event resolves
  to blue; the events that \<open>seq\<close> and \<open>pick\<close> make of it carry no reference and resolve
  to the default red.
\<close>

theorem expansion_drops_color_ref_witness:
  "all_held (span 0 1) two_lights = Inr [all_held_event]
   \<and> color_ref (hap_value all_held_event) = Some (random_hold 4)
   \<and> resolve_color demo_rng 0 (Some red_blue) red (color (hap_value all_held_event))
        (color_ref (hap_value all_held_event)) 0 1 = Inr blue
   \<and> seq all_held None True (span 0 1) two_lights =
        Inr [hap_at 0 (1 / 4) 0 (1 / 4) 0, hap_at (1 / 4) (1 / 2) (1 / 4) (1 / 2) 1,
             hap_at (1 / 2) (3 / 4) (1 / 2) (3 / 4) 0, hap_at (3 / 4) 1 (3 / 4) 1 1]
   \<and> query_pick demo_rng demo_lib all_held (CountInt 1) (CountInt 1) None None (span 0 1)
        two_lights = Inr [hap_at 0 1 0 1 0]
   \<and> carries_over all_held_event (hap_at 0 (1 / 4) 0 (1 / 4) 0)
   \<and> carries_over all_held_event (hap_at 0 1 0 1 0)
   \<and> color_ref (hap_value (hap_at 0 (1 / 4) 0 (1 / 4) 0)) = None
   \<and> resolve_color demo_rng 0 (Some red_blue) red (color (hap_value (hap_at 0 (1 / 4) 0 (1 / 4) 0)))
        (color_ref (hap_value (hap_at 0 (1 / 4) 0 (1 / 4) 0))) 0 1 = Inr red"
proof -
  note t = expansion_drops_color_ref [where p = all_held and sp = "span 0 1" and ctx = two_lights
      and haps = "[all_held_event]" and slots = None and per_group = True
      and rng = demo_rng and lib = demo_lib and min_n = "CountInt 1" and max_n = "CountInt 1"
      and seed = None and hold = None and src = all_held_event
      and v = "light_value None (Some ''all'')" and ref = "random_hold 4"
      and os = 0 and pal = "Some red_blue" and dflt = red and ev = 0 and cp = 1]
  have ne: "hap_at a b c d l \<noteq> all_held_event" for a b c d l
    by (simp add: hap_at_def all_held_event_def light_value_def with_color_ref_def)
  have "(hap_at 0 (1 / 4) 0 (1 / 4) 0 \<in> set [all_held_event]
          \<and> \<not> seq_expands (hap_at 0 (1 / 4) 0 (1 / 4) 0))
      \<or> (\<exists>h \<in> set [all_held_event]. seq_expands h \<and> carries_over h (hap_at 0 (1 / 4) 0 (1 / 4) 0))"
    by (rule t [where out = "[hap_at 0 (1 / 4) 0 (1 / 4) 0, hap_at (1 / 4) (1 / 2) (1 / 4) (1 / 2) 1,
          hap_at (1 / 2) (3 / 4) (1 / 2) (3 / 4) 0, hap_at (3 / 4) 1 (3 / 4) 1 1]"
          and ?h1.0 = "hap_at 0 (1 / 4) 0 (1 / 4) 0", THEN conjunct1, THEN mp])
      (simp add: all_held_cycle all_held_seq)
  then have c1: "carries_over all_held_event (hap_at 0 (1 / 4) 0 (1 / 4) 0)"
    by (simp add: ne)
  have "(hap_at 0 1 0 1 0 \<in> set [all_held_event] \<and> light_id (hap_value (hap_at 0 1 0 1 0)) \<noteq> None)
      \<or> (\<exists>h \<in> set [all_held_event]. light_id (hap_value h) = None \<and> carries_over h (hap_at 0 1 0 1 0))"
    by (rule t [where out' = "[hap_at 0 1 0 1 0]" and ?h2.0 = "hap_at 0 1 0 1 0",
          THEN conjunct2, THEN conjunct1, THEN mp])
      (simp add: all_held_cycle all_held_pick)
  then have c2: "carries_over all_held_event (hap_at 0 1 0 1 0)"
    by (simp add: ne)
  have hv: "hap_value all_held_event = with_color_ref (light_value None (Some ''all'')) (random_hold 4)"
    by (simp add: all_held_event_def)
  have r: "resolve_color demo_rng 0 (Some red_blue) red (color (hap_value (hap_at 0 (1 / 4) 0 (1 / 4) 0)))
        (color_ref (hap_value (hap_at 0 (1 / 4) 0 (1 / 4) 0))) 0 1 = Inr red"
    by (rule t [where ?h3.0 = "hap_at 0 (1 / 4) 0 (1 / 4) 0",
          THEN conjunct2, THEN conjunct2, THEN conjunct2, THEN mp])
      (simp add: c1 hv)
  have n: "color_ref (hap_value (hap_at 0 (1 / 4) 0 (1 / 4) 0)) = None"
    using c1 by (simp add: carries_over_def)
  have s: "color_ref (hap_value all_held_event) = Some (random_hold 4)"
    by (simp add: all_held_event_def with_color_ref_def)
  have b: "resolve_color demo_rng 0 (Some red_blue) red (color (hap_value all_held_event))
        (color_ref (hap_value all_held_event)) 0 1 = Inr blue"
    by code_simp
  show ?thesis
    using all_held_cycle all_held_seq all_held_pick c1 c2 r n s b by simp
qed

section \<open>The frame loop\<close>

lemma rendered_intensity:
  "rendered rng os S cp v t ev = Inr (c, i) \<Longrightarrow>
   i = intensity v * (case envelope v of Some env \<Rightarrow> get_intensity env t | None \<Rightarrow> 1)
       * (case modulator v of Some m \<Rightarrow> modulator_intensity m (of_rat cp) | None \<Rightarrow> 1)"
  by (auto simp: rendered_def Let_def split: sum.splits option.splits)

lemma light_candidate_None:
  "light_candidate rng os S cp idx hap l = Inr None \<Longrightarrow> \<not> lights_up S cp hap l"
  by (auto simp: light_candidate_def lights_up_def effective_intensity_def Let_def
      dest!: rendered_intensity split: if_splits sum.splits prod.splits)

lemma light_candidate_Some:
  "light_candidate rng os S cp idx hap l = Inr (Some (c, i)) \<Longrightarrow>
   lights_up S cp hap l \<and> i = effective_intensity cp hap"
  by (auto simp: light_candidate_def lights_up_def effective_intensity_def Let_def
      dest!: rendered_intensity split: if_splits sum.splits prod.splits)

lemma htp_write_int:
  "fr_intensities (htp_write fr l c i) = (fr_intensities fr)(l := htp_max (fr_intensities fr l) i)"
  by (auto simp: htp_write_def htp_max_def fun_eq_iff split: option.splits)

lemma track_fields [simp]:
  "fr_intensities (track fr l hap) = fr_intensities fr"
  "fr_colors (track fr l hap) = fr_colors fr"
  by (simp_all add: track_def)

lemma htp_max_idem: "htp_max (htp_max m i) i = htp_max m i"
  by (auto simp: htp_max_def split: option.splits)

lemma lights_loop_int:
  "lights_loop rng os S cp idx hap ls fr = Inr fr' \<Longrightarrow>
   fr_intensities fr' l =
     (if l \<in> set ls \<and> lights_up S cp hap l
      then htp_max (fr_intensities fr l) (effective_intensity cp hap)
      else fr_intensities fr l)"
proof (induction ls arbitrary: fr)
  case Nil
  then show ?case by simp
next
  case (Cons a ls)
  show ?case
  proof (cases "light_candidate rng os S cp idx hap a")
    case (Inl e)
    then show ?thesis using Cons.prems by simp
  next
    case (Inr r)
    show ?thesis
    proof (cases r)
      case None
      then have "\<not> lights_up S cp hap a" using Inr by (auto dest: light_candidate_None)
      moreover have "lights_loop rng os S cp idx hap ls fr = Inr fr'"
        using Cons.prems Inr None by simp
      ultimately show ?thesis using Cons.IH [of fr] by auto
    next
      case (Some ci)
      obtain c i where ci: "ci = (c, i)" by (cases ci)
      have sh: "lights_up S cp hap a" and i: "i = effective_intensity cp hap"
        using Inr Some ci by (auto dest: light_candidate_Some)
      have "lights_loop rng os S cp idx hap ls (track (htp_write fr a c i) a hap) = Inr fr'"
        using Cons.prems Inr Some ci by simp
      from Cons.IH [OF this] show ?thesis
        using sh i by (auto simp: htp_write_int htp_max_idem)
    qed
  qed
qed

lemma haps_loop_int:
  "haps_loop rng os S cp ihaps fr = Inr fr' \<Longrightarrow>
   fr_intensities fr' l =
     fold (\<lambda>i m. htp_max m i)
       (map (effective_intensity cp) (filter (seen S cp l) (map snd ihaps)))
       (fr_intensities fr l)"
proof (induction ihaps arbitrary: fr)
  case Nil
  then show ?case by simp
next
  case (Cons ih ihaps)
  obtain idx hap where ih: "ih = (idx, hap)" by (cases ih)
  show ?case
  proof (cases "hap_light_ids (light_context S) hap")
    case None
    then have "\<not> seen S cp l hap" by (simp add: seen_def targets_def)
    moreover have "haps_loop rng os S cp ihaps fr = Inr fr'"
      using Cons.prems ih None by simp
    ultimately show ?thesis using Cons.IH [of fr] ih by simp
  next
    case (Some ls)
    then obtain fr1 where l1: "lights_loop rng os S cp idx hap ls fr = Inr fr1"
      and rest: "haps_loop rng os S cp ihaps fr1 = Inr fr'"
      using Cons.prems ih by (auto split: sum.splits)
    have s: "seen S cp l hap \<longleftrightarrow> l \<in> set ls \<and> lights_up S cp hap l"
      using Some by (auto simp: seen_def targets_def lights_up_def)
    show ?thesis
      using Cons.IH [OF rest] lights_loop_int [OF l1, of l] ih s by simp
  qed
qed

lemma fold_htp_max_Some:
  "fold (\<lambda>i m. htp_max m i) is (Some j) = Some (Max (insert j (set is)))"
proof (induction "is" arbitrary: j)
  case Nil
  then show ?case by simp
next
  case (Cons i "is")
  have "htp_max (Some j) i = Some (max j i)" by (simp add: htp_max_def max_def)
  moreover have "Max (insert (max j i) (set is)) = Max (insert j (insert i (set is)))"
  proof (cases "set is = {}")
    case True
    then show ?thesis by (simp add: max.commute)
  next
    case False
    then show ?thesis by (simp add: max.assoc max.left_commute max.commute)
  qed
  ultimately show ?case using Cons.IH [of "max j i"] by simp
qed

lemma fold_htp_max_None:
  "fold (\<lambda>i m. htp_max m i) is None = (if is = [] then None else Some (Max (set is)))"
proof (cases "is")
  case Nil
  then show ?thesis by simp
next
  case (Cons i rest)
  have "htp_max None i = Some i" by (simp add: htp_max_def)
  then show ?thesis using Cons fold_htp_max_Some [of rest i] by simp
qed

lemma visible_as_seen:
  "visible_intensities (light_context S) cp haps l = map (effective_intensity cp) (filter (seen S cp l) haps)"
  by (induction haps) (auto simp: visible_intensities_def active_intensities_def seen_def)

subsection \<open>Colours and intensities are written together\<close>

lemma consistent_empty:
  "consistent \<lparr>fr_colors = Map.empty, fr_intensities = Map.empty, fr_active = a\<rparr>"
  by (simp add: consistent_def painted_def)

lemma painted_htp_write: "painted fr k \<Longrightarrow> painted (htp_write fr l c i) k"
  unfolding painted_def htp_write_def by auto

lemma consistent_htp_write: "consistent fr \<Longrightarrow> consistent (htp_write fr l c i)"
  by (simp add: consistent_def painted_htp_write)

lemma consistent_track: "consistent (track fr l hap) = consistent fr"
  by (simp add: consistent_def painted_def)

lemma consistent_active: "consistent (fr\<lparr>fr_active := a\<rparr>) = consistent fr"
  by (simp add: consistent_def painted_def)

lemma consistent_None: "consistent fr \<Longrightarrow> (fr_colors fr l = None) = (fr_intensities fr l = None)"
  unfolding consistent_def painted_def by (erule allE [of _ l]) auto

lemma consistent_Some:
  "consistent fr \<Longrightarrow> fr_intensities fr l = Some i \<Longrightarrow>
   \<exists>col :: HSV. fr_colors fr l = Some (RGB_from_hsv (hue col) (saturation col) i)"
  unfolding consistent_def painted_def by (erule allE [of _ l]) simp

lemma lights_loop_consistent:
  "lights_loop rng os S cp idx hap ls fr = Inr fr' \<Longrightarrow> consistent fr \<Longrightarrow> consistent fr'"
proof (induction ls arbitrary: fr)
  case Nil
  then show ?case by simp
next
  case (Cons a ls)
  then show ?case
    by (auto simp: consistent_track consistent_htp_write split: sum.splits option.splits prod.splits)
qed

lemma haps_loop_consistent:
  "haps_loop rng os S cp ihaps fr = Inr fr' \<Longrightarrow> consistent fr \<Longrightarrow> consistent fr'"
proof (induction ihaps arbitrary: fr)
  case Nil
  then show ?case by simp
next
  case (Cons ih ihaps)
  obtain idx hap where ih: "ih = (idx, hap)" by (cases ih)
  show ?case
    using Cons.prems Cons.IH ih
    by (auto split: sum.splits option.splits dest: lights_loop_consistent)
qed

subsection \<open>Which lights are written and tracked\<close>

lemma dict_set_keys: "fst ` set (dict_set k v kvs) = insert k (fst ` set kvs)"
  by (induction k v kvs rule: dict_set.induct) auto

lemma dict_set_entries: "set (dict_set k v kvs) \<subseteq> insert (k, v) (set kvs)"
  by (induction k v kvs rule: dict_set.induct) auto

lemma htp_write_colors_dom: "dom (fr_colors (htp_write fr l c i)) \<subseteq> insert l (dom (fr_colors fr))"
  by (auto simp: htp_write_def split: if_splits)

lemma htp_write_active [simp]: "fr_active (htp_write fr l c i) = fr_active fr"
  by (simp add: htp_write_def)

lemma htp_write_written:
  "consistent fr \<Longrightarrow> fr_colors (htp_write fr l c i) l \<noteq> None"
  using consistent_None [of fr l] by (auto simp: htp_write_def)

lemma htp_write_keeps:
  "fr_colors fr k \<noteq> None \<Longrightarrow> fr_colors (htp_write fr l c i) k \<noteq> None"
  by (auto simp: htp_write_def)

lemma grows_refl: "grows S hs fr fr"
  by (simp add: grows_def)

lemma grows_trans: "grows S hs fr fr1 \<Longrightarrow> grows S hs fr1 fr2 \<Longrightarrow> grows S hs fr fr2"
  unfolding grows_def by (intro conjI allI ballI impI) (metis | blast)+

lemma grows_mono: "grows S hs fr fr' \<Longrightarrow> hs \<subseteq> hs' \<Longrightarrow> grows S hs' fr fr'"
  unfolding grows_def by blast

lemma grows_step:
  assumes "consistent fr" and "fixture S l"
  shows "grows S {hap} fr (track (htp_write fr l c i) l hap)"
proof -
  have w: "fr_colors (htp_write fr l c i) l \<noteq> None"
    using assms(1) by (rule htp_write_written)
  have d: "fr_colors (htp_write fr l c i) k \<noteq> None \<Longrightarrow> fr_colors fr k \<noteq> None \<or> k = l" for k
    by (auto simp: htp_write_def split: if_splits)
  have a: "e \<in> set (fr_active (track (htp_write fr l c i) l hap)) \<Longrightarrow>
      e \<in> set (fr_active fr) \<or> (fst e = l \<and> ae_hap (snd e) = hap)" for e
    using dict_set_entries [of l "\<lparr>ae_hap = hap, start_cycle = of_rat (ts_start (whole_or_part hap))\<rparr>" "fr_active fr"]
    by (auto simp: track_def)
  show ?thesis
    unfolding grows_def
  proof (intro conjI allI ballI impI)
    fix k assume "fr_colors fr k \<noteq> None"
    then show "fr_colors (track (htp_write fr l c i) l hap) k \<noteq> None"
      by (simp add: htp_write_keeps)
  next
    fix k assume "fr_colors (track (htp_write fr l c i) l hap) k \<noteq> None"
    then show "fr_colors fr k \<noteq> None \<or> fixture S k"
      using d [of k] assms(2) by auto
  next
    fix e assume "e \<in> set (fr_active (track (htp_write fr l c i) l hap))"
    then show "e \<in> set (fr_active fr)
        \<or> (fixture S (fst e) \<and> fr_colors (track (htp_write fr l c i) l hap) (fst e) \<noteq> None
           \<and> ae_hap (snd e) \<in> {hap})"
      using a [of e] assms(2) w by auto
  qed
qed

lemma lights_loop_grows:
  "lights_loop rng os S cp idx hap ls fr = Inr fr' \<Longrightarrow> consistent fr \<Longrightarrow> grows S {hap} fr fr'"
proof (induction ls arbitrary: fr)
  case Nil
  then show ?case by (simp add: grows_refl)
next
  case (Cons a ls)
  show ?case
  proof (cases "light_candidate rng os S cp idx hap a")
    case (Inl e)
    then show ?thesis using Cons.prems by simp
  next
    case (Inr r)
    show ?thesis
    proof (cases r)
      case None
      then show ?thesis using Cons Inr by simp
    next
      case (Some ci)
      obtain c i where ci: "ci = (c, i)" by (cases ci)
      have fx: "fixture S a"
        using Inr Some ci light_candidate_Some [of rng os S cp idx hap a c i]
        by (simp add: lights_up_def fixture_def)
      have rest: "lights_loop rng os S cp idx hap ls (track (htp_write fr a c i) a hap) = Inr fr'"
        using Cons.prems Inr Some ci by simp
      have c1: "consistent (track (htp_write fr a c i) a hap)"
        using Cons.prems(2) by (simp add: consistent_track consistent_htp_write)
      from grows_step [OF Cons.prems(2) fx] Cons.IH [OF rest c1]
      show ?thesis by (rule grows_trans)
    qed
  qed
qed

lemma haps_loop_grows:
  "haps_loop rng os S cp ihaps fr = Inr fr' \<Longrightarrow> consistent fr \<Longrightarrow>
   grows S (snd ` set ihaps) fr fr'"
proof (induction ihaps arbitrary: fr)
  case Nil
  then show ?case by (simp add: grows_refl)
next
  case (Cons ih ihaps)
  obtain idx hap where ih: "ih = (idx, hap)" by (cases ih)
  show ?case
  proof (cases "hap_light_ids (light_context S) hap")
    case None
    then have "haps_loop rng os S cp ihaps fr = Inr fr'" using Cons.prems ih by simp
    from Cons.IH [OF this Cons.prems(2)] show ?thesis
      by (rule grows_mono) auto
  next
    case (Some ls)
    then obtain fr1 where l1: "lights_loop rng os S cp idx hap ls fr = Inr fr1"
      and rest: "haps_loop rng os S cp ihaps fr1 = Inr fr'"
      using Cons.prems ih by (auto split: sum.splits)
    have c1: "consistent fr1" using l1 Cons.prems(2) by (rule lights_loop_consistent)
    have g1: "grows S (snd ` set (ih # ihaps)) fr fr1"
      using lights_loop_grows [OF l1 Cons.prems(2)] by (rule grows_mono) (simp add: ih)
    have g2: "grows S (snd ` set (ih # ihaps)) fr1 fr'"
      using Cons.IH [OF rest c1] by (rule grows_mono) auto
    from g1 g2 show ?thesis by (rule grows_trans)
  qed
qed

subsection \<open>The tail loop\<close>

lemma tail_step_cases:
  "tail_step rng os S cp (l, a) (fr, ex) = Inr (fr', ex') \<Longrightarrow>
   fr' = fr \<or> (fr_colors fr l = None \<and> (\<exists>c i. fr' = htp_write fr l c i))"
  by (auto simp: tail_step_def Let_def split: if_splits option.splits sum.splits prod.splits)

lemma settles_refl: "settles ks fr fr"
  by (simp add: settles_def)

lemma settles_write:
  "fr_colors fr l = None \<Longrightarrow> settles {l} fr (htp_write fr l c i)"
  by (auto simp: settles_def htp_write_def)

lemma settles_trans:
  "settles ks fr fr1 \<Longrightarrow> settles ks' fr1 fr2 \<Longrightarrow> settles (ks \<union> ks') fr fr2"
  unfolding settles_def by (intro conjI allI impI) (metis Un_iff)+

lemma tails_loop_settles:
  "tails_loop rng os S cp entries (fr, ex) = Inr (fr', ex') \<Longrightarrow> consistent fr \<Longrightarrow>
   consistent fr' \<and> settles (fst ` set entries) fr fr'"
proof (induction entries arbitrary: fr ex)
  case Nil
  then show ?case by (simp add: settles_refl)
next
  case (Cons entry entries)
  obtain l a where e: "entry = (l, a)" by (cases entry)
  from Cons.prems(1) obtain fr1 ex1 where
    st: "tail_step rng os S cp (l, a) (fr, ex) = Inr (fr1, ex1)"
    and rest: "tails_loop rng os S cp entries (fr1, ex1) = Inr (fr', ex')"
    by (auto simp: e split: sum.splits)
  from tail_step_cases [OF st]
  have c1: "consistent fr1" and s1: "settles {l} fr fr1"
    using Cons.prems(2) by (auto simp: consistent_htp_write settles_refl settles_write)
  from Cons.IH [OF rest c1] have c2: "consistent fr'" and s2: "settles (fst ` set entries) fr1 fr'"
    by simp_all
  from settles_trans [OF s1 s2] have "settles (fst ` set (entry # entries)) fr fr'"
    by (simp add: e)
  with c2 show ?case by simp
qed

subsection \<open>Colour resolution that does not raise\<close>

lemma palette_getitem_ok: "colors pal \<noteq> [] \<Longrightarrow> \<not> isl (palette_getitem pal i)"
  by (simp add: palette_getitem_def)

lemma py_choice_ok: "xs \<noteq> [] \<Longrightarrow> \<not> isl (py_choice rng sd xs)"
  by (simp add: py_choice_def)

lemma shuffled_indices_nonempty: "colors pal \<noteq> [] \<Longrightarrow> shuffled_indices rng pal \<noteq> []"
  using shuffled_indices_props [of rng pal] by auto

lemma resolve_ok:
  assumes "ref_ok ref" and "colors pal \<noteq> []"
  shows "\<not> isl (resolve rng os ref pal ev (Some cp) None)"
proof (cases "mode ref")
  case INDEX
  then show ?thesis using assms by (simp add: resolve_def palette_getitem_ok)
next
  case RANDOM
  then show ?thesis using assms by (simp add: resolve_def py_choice_ok)
next
  case CYCLE
  then show ?thesis using assms by (simp add: resolve_def palette_getitem_ok)
next
  case RANDOM_HOLD
  then show ?thesis
    using assms
    by (simp add: resolve_def ref_ok_def Let_def palette_getitem_ok shuffled_indices_nonempty)
next
  case RANDOM_BLEND
  show ?thesis
    using assms RANDOM_BLEND
    by (simp add: resolve_def ref_ok_def Let_def palette_getitem_def shuffled_indices_nonempty)
next
  case CYCLE_HOLD
  then show ?thesis
    using assms by (simp add: resolve_def ref_ok_def Let_def palette_getitem_ok)
qed

lemma not_isl_Inr: "\<not> isl r \<Longrightarrow> \<exists>x. r = Inr x"
  by (cases r) simp_all

lemma resolve_color_ok:
  "opt_ref_ok cref \<Longrightarrow> palette_ok pal \<Longrightarrow> \<not> isl (resolve_color rng os pal dflt col cref ev cp)"
  by (auto simp: resolve_color_def opt_ref_ok_def palette_ok_def resolve_ok split: option.splits)

lemma envelope_slot_ok:
  assumes "opt_ref_ok ref" and "palette_ok pal"
  shows "\<not> isl (envelope_slot rng os pal lit ref ev cp)"
proof (cases "lit = None \<and> ref \<noteq> None \<and> pal \<noteq> None")
  case False
  then show ?thesis by (auto simp: envelope_slot_def split: option.splits)
next
  case True
  then obtain rf pl where rp: "ref = Some rf" "pal = Some pl" by auto
  have "\<not> isl (resolve rng os rf pl ev (Some cp) None)"
    using assms rp by (intro resolve_ok) (simp_all add: opt_ref_ok_def palette_ok_def)
  then obtain c where "resolve rng os rf pl ev (Some cp) None = Inr c"
    by (auto dest: not_isl_Inr)
  then show ?thesis using True rp by (simp add: envelope_slot_def)
qed

lemma get_envelope_color_ok:
  assumes "opt_ref_ok (flash_ref env)" and "opt_ref_ok (fade_ref env)" and "palette_ok pal"
  shows "\<not> isl (get_envelope_color rng os pal env t base ev cp)"
proof -
  have "\<not> isl (envelope_slot rng os pal (flash_color env) (flash_ref env) ev cp)"
    using assms(1,3) by (rule envelope_slot_ok)
  then obtain fl where fl: "envelope_slot rng os pal (flash_color env) (flash_ref env) ev cp = Inr fl"
    by (auto dest: not_isl_Inr)
  have "\<not> isl (envelope_slot rng os pal (fade_color env) (fade_ref env) ev cp)"
    using assms(2,3) by (rule envelope_slot_ok)
  then obtain fd where fd: "envelope_slot rng os pal (fade_color env) (fade_ref env) ev cp = Inr fd"
    by (auto dest: not_isl_Inr)
  show ?thesis by (simp add: get_envelope_color_def fl fd)
qed

lemma rendered_ok:
  assumes "refs_ok v" and "palette_ok (palette S)"
  shows "\<not> isl (rendered rng os S cp v t ev)"
proof -
  have "\<not> isl (resolve_color rng os (palette S) (default_color S) (color v) (color_ref v) ev cp)"
    using assms by (intro resolve_color_ok) (simp_all add: refs_ok_def)
  then obtain base where b: "resolve_color rng os (palette S) (default_color S) (color v) (color_ref v) ev cp
      = Inr base"
    by (auto dest: not_isl_Inr)
  show ?thesis
  proof (cases "envelope v")
    case None
    then show ?thesis by (simp add: rendered_def b)
  next
    case (Some env)
    then have "opt_ref_ok (flash_ref env)" "opt_ref_ok (fade_ref env)"
      using assms(1) by (simp_all add: refs_ok_def)
    then have "\<not> isl (get_envelope_color rng os (palette S) env t base ev cp)"
      using assms(2) by (intro get_envelope_color_ok)
    then obtain c where "get_envelope_color rng os (palette S) env t base ev cp = Inr c"
      by (auto dest: not_isl_Inr)
    then show ?thesis using Some by (simp add: rendered_def b)
  qed
qed

lemma light_candidate_ok:
  assumes "refs_ok (hap_value hap)" and "palette_ok (palette S)"
  shows "\<not> isl (light_candidate rng os S cp idx hap l)"
proof -
  have "\<not> isl (rendered rng os S cp (hap_value hap)
      (of_rat cp - of_rat (ts_start (whole_or_part hap))) (int idx))"
    using assms by (rule rendered_ok)
  then obtain c i where "rendered rng os S cp (hap_value hap)
      (of_rat cp - of_rat (ts_start (whole_or_part hap))) (int idx) = Inr (c, i)"
    by (metis not_isl_Inr surj_pair)
  then show ?thesis by (simp add: light_candidate_def Let_def)
qed

lemma lights_loop_ok:
  assumes "refs_ok (hap_value hap)" and "palette_ok (palette S)"
  shows "\<not> isl (lights_loop rng os S cp idx hap ls fr)"
proof (induction ls arbitrary: fr)
  case Nil
  then show ?case by simp
next
  case (Cons a ls)
  have "\<not> isl (light_candidate rng os S cp idx hap a)"
    using assms by (rule light_candidate_ok)
  then obtain r where "light_candidate rng os S cp idx hap a = Inr r"
    by (auto dest: not_isl_Inr)
  then show ?case using Cons.IH by (cases r) (auto split: prod.splits)
qed

lemma haps_loop_ok:
  assumes "\<forall>ih \<in> set ihaps. refs_ok (hap_value (snd ih))" and "palette_ok (palette S)"
  shows "\<not> isl (haps_loop rng os S cp ihaps fr)"
  using assms(1)
proof (induction ihaps arbitrary: fr)
  case Nil
  then show ?case by simp
next
  case (Cons ih ihaps)
  obtain idx hap where ih: "ih = (idx, hap)" by (cases ih)
  have r: "refs_ok (hap_value hap)" using Cons.prems ih by simp
  have IH: "\<not> isl (haps_loop rng os S cp ihaps fr')" for fr'
    using Cons.IH Cons.prems by simp
  show ?case
  proof (cases "hap_light_ids (light_context S) hap")
    case None
    then show ?thesis using IH ih by simp
  next
    case (Some ls)
    have "\<not> isl (lights_loop rng os S cp idx hap ls fr)"
      using r assms(2) by (rule lights_loop_ok)
    then obtain fr1 where "lights_loop rng os S cp idx hap ls fr = Inr fr1"
      by (auto dest: not_isl_Inr)
    then show ?thesis using IH ih Some by simp
  qed
qed

lemma tail_step_ok:
  assumes "refs_ok (hap_value (ae_hap (snd entry)))" and "palette_ok (palette S)"
  shows "\<not> isl (tail_step rng os S cp entry st)"
proof -
  obtain l a where e: "entry = (l, a)" by (cases entry)
  obtain fr ex where st: "st = (fr, ex)" by (cases st)
  have "\<not> isl (rendered rng os S cp (hap_value (ae_hap a))
      (of_rat cp - of_rat (ts_start (whole_or_part (ae_hap a)))) l)"
    using assms e by (intro rendered_ok) simp_all
  then obtain c i where "rendered rng os S cp (hap_value (ae_hap a))
      (of_rat cp - of_rat (ts_start (whole_or_part (ae_hap a)))) l = Inr (c, i)"
    by (metis not_isl_Inr surj_pair)
  then show ?thesis
    unfolding tail_step_def e st
    by (simp add: Let_def split: option.splits)
qed

lemma tails_loop_ok:
  assumes "\<forall>entry \<in> set entries. refs_ok (hap_value (ae_hap (snd entry)))" and "palette_ok (palette S)"
  shows "\<not> isl (tails_loop rng os S cp entries st)"
  using assms(1)
proof (induction entries arbitrary: st)
  case Nil
  then show ?case by simp
next
  case (Cons entry entries)
  have "refs_ok (hap_value (ae_hap (snd entry)))" using Cons.prems by simp
  then have "\<not> isl (tail_step rng os S cp entry st)"
    using assms(2) by (rule tail_step_ok)
  then obtain st1 where "tail_step rng os S cp entry st = Inr st1"
    by (auto dest: not_isl_Inr)
  then show ?case using Cons.IH Cons.prems by simp
qed

subsection \<open>A whole frame\<close>

lemma map_snd_enumerate: "map snd (enumerate n xs) = xs"
  by (simp add: enumerate_eq_zip)

lemma snd_set_enumerate: "snd ` set (enumerate n xs) = set xs"
  using map_snd_enumerate [of n xs] by (metis set_map)

text \<open>The three stages of a frame under the no-raise conditions.\<close>

lemma compute_frame_stages:
  assumes "well_formed S haps"
      and "pattern S (query_window S beat) (light_context S) = Inr haps"
  obtains fr1 fr2 ex where
    "haps_loop rng os S (frame_position S beat) (enumerate 0 haps) (empty_frame S) = Inr fr1"
    "tails_loop rng os S (frame_position S beat) (fr_active fr1) (fr1, []) = Inr (fr2, ex)"
    "compute_frame rng os S beat =
       Inr (fr2\<lparr>fr_active := filter (\<lambda>entry. fst entry \<notin> set ex) (fr_active fr2)\<rparr>)"
proof -
  let ?cp = "frame_position S beat"
  have wf: "sched_cycle_beats S \<noteq> 0" "palette_ok (palette S)"
    "\<forall>h \<in> set haps. refs_ok (hap_value h)" "\<forall>e \<in> set (active_events S). entry_ok S e"
    using assms(1) by (simp_all add: well_formed_def list_all_iff)
  have "\<forall>ih \<in> set (enumerate 0 haps). refs_ok (hap_value (snd ih))"
    using wf(3) snd_set_enumerate [of 0 haps] by auto
  then have "\<not> isl (haps_loop rng os S ?cp (enumerate 0 haps) (empty_frame S))"
    using wf(2) by (rule haps_loop_ok)
  then obtain fr1 where p1: "haps_loop rng os S ?cp (enumerate 0 haps) (empty_frame S) = Inr fr1"
    by (auto dest: not_isl_Inr)
  have c0: "consistent (empty_frame S)" by (simp add: empty_frame_def consistent_empty)
  have g: "grows S (set haps) (empty_frame S) fr1"
    using haps_loop_grows [OF p1 c0] by (simp add: snd_set_enumerate)
  have "\<forall>e \<in> set (fr_active fr1). refs_ok (hap_value (ae_hap (snd e)))"
  proof
    fix e assume "e \<in> set (fr_active fr1)"
    then have "e \<in> set (active_events S) \<or> ae_hap (snd e) \<in> set haps"
      using g by (auto simp: grows_def empty_frame_def)
    then show "refs_ok (hap_value (ae_hap (snd e)))"
      using wf(3,4) by (auto simp: entry_ok_def)
  qed
  then have "\<not> isl (tails_loop rng os S ?cp (fr_active fr1) (fr1, []))"
    using wf(2) by (rule tails_loop_ok)
  then obtain fr2 ex where p2: "tails_loop rng os S ?cp (fr_active fr1) (fr1, []) = Inr (fr2, ex)"
    by (metis not_isl_Inr surj_pair)
  have "compute_frame rng os S beat =
      Inr (fr2\<lparr>fr_active := filter (\<lambda>entry. fst entry \<notin> set ex) (fr_active fr2)\<rparr>)"
    using wf(1) assms(2) p1 p2 by (simp add: compute_frame_def Let_def empty_frame_def)
  with p1 p2 show ?thesis by (rule that)
qed

text \<open>What the frame holds for one light.\<close>

lemma compute_frame_light:
  assumes "well_formed S haps"
      and "pattern S (query_window S beat) (light_context S) = Inr haps"
  shows "\<exists>fr. compute_frame rng os S beat = Inr fr
     \<and> consistent fr
     \<and> (visible_intensities (light_context S) (frame_position S beat) haps l \<noteq> [] \<longrightarrow>
          fr_intensities fr l =
            Some (Max (set (visible_intensities (light_context S) (frame_position S beat) haps l))))
     \<and> (visible_intensities (light_context S) (frame_position S beat) haps l = []
          \<and> l \<notin> fst ` set (active_events S) \<longrightarrow> fr_intensities fr l = None)
     \<and> (\<forall>k. fr_colors fr k \<noteq> None \<longrightarrow> fixture S k)
     \<and> list_all (entry_ok S) (fr_active fr)"
proof -
  let ?cp = "frame_position S beat"
  let ?vis = "visible_intensities (light_context S) ?cp haps l"
  have wf: "\<forall>h \<in> set haps. refs_ok (hap_value h)" "\<forall>e \<in> set (active_events S). entry_ok S e"
    using assms(1) by (simp_all add: well_formed_def list_all_iff)
  from compute_frame_stages [OF assms, of rng os]
  obtain fr1 fr2 ex where
    p1: "haps_loop rng os S ?cp (enumerate 0 haps) (empty_frame S) = Inr fr1" and
    p2: "tails_loop rng os S ?cp (fr_active fr1) (fr1, []) = Inr (fr2, ex)" and
    res: "compute_frame rng os S beat =
       Inr (fr2\<lparr>fr_active := filter (\<lambda>entry. fst entry \<notin> set ex) (fr_active fr2)\<rparr>)"
    by blast
  let ?fr = "fr2\<lparr>fr_active := filter (\<lambda>entry. fst entry \<notin> set ex) (fr_active fr2)\<rparr>"
  have c0: "consistent (empty_frame S)" by (simp add: empty_frame_def consistent_empty)
  have c1: "consistent fr1" using p1 c0 by (rule haps_loop_consistent)
  have g: "grows S (set haps) (empty_frame S) fr1"
    using haps_loop_grows [OF p1 c0] by (simp add: snd_set_enumerate)
  from tails_loop_settles [OF p2 c1]
  have c2: "consistent fr2" and st: "settles (fst ` set (fr_active fr1)) fr1 fr2" by simp_all
  have i1: "fr_intensities fr1 l = (if ?vis = [] then None else Some (Max (set ?vis)))"
    using haps_loop_int [OF p1, of l]
    by (simp add: map_snd_enumerate empty_frame_def visible_as_seen fold_htp_max_None)
  have ent: "e \<in> set (fr_active fr1) \<Longrightarrow>
      (e \<in> set (active_events S) \<or> fr_colors fr1 (fst e) \<noteq> None) \<and> entry_ok S e" for e
    using g wf by (auto simp: grows_def empty_frame_def entry_ok_def)
  have a: "?vis \<noteq> [] \<longrightarrow> fr_intensities ?fr l = Some (Max (set ?vis))"
  proof
    assume v: "?vis \<noteq> []"
    then have "fr_intensities fr1 l = Some (Max (set ?vis))" using i1 by simp
    moreover from this have "fr_colors fr1 l \<noteq> None" using consistent_None [OF c1, of l] by simp
    ultimately show "fr_intensities ?fr l = Some (Max (set ?vis))"
      using st by (simp add: settles_def)
  qed
  have b: "?vis = [] \<and> l \<notin> fst ` set (active_events S) \<longrightarrow> fr_intensities ?fr l = None"
  proof
    assume h: "?vis = [] \<and> l \<notin> fst ` set (active_events S)"
    then have n1: "fr_colors fr1 l = None" using i1 consistent_None [OF c1, of l] by simp
    have "l \<notin> fst ` set (fr_active fr1)"
    proof
      assume "l \<in> fst ` set (fr_active fr1)"
      then obtain e where "e \<in> set (fr_active fr1)" "fst e = l" by auto
      then show False using ent [of e] h n1 by auto
    qed
    then have "fr_colors fr2 l = None" using st n1 by (auto simp: settles_def)
    then show "fr_intensities ?fr l = None" using consistent_None [OF c2, of l] by simp
  qed
  have c: "\<forall>k. fr_colors ?fr k \<noteq> None \<longrightarrow> fixture S k"
  proof (intro allI impI)
    fix k assume "fr_colors ?fr k \<noteq> None"
    then have "fr_colors fr1 k \<noteq> None \<or> k \<in> fst ` set (fr_active fr1)"
      using st by (auto simp: settles_def)
    then show "fixture S k"
    proof
      assume "fr_colors fr1 k \<noteq> None"
      then show ?thesis using g by (auto simp: grows_def empty_frame_def)
    next
      assume "k \<in> fst ` set (fr_active fr1)"
      then obtain e where "e \<in> set (fr_active fr1)" "fst e = k" by auto
      then show ?thesis using ent [of e] by (auto simp: entry_ok_def)
    qed
  qed
  have d: "list_all (entry_ok S) (fr_active ?fr)"
    using st ent by (auto simp: settles_def list_all_iff)
  have "consistent ?fr" using c2 by (simp add: consistent_active)
  with res a b c d show ?thesis by blast
qed

section \<open>HTP blending and one colour per fixture\<close>

text \<open>The black fill keeps what was written and fills the fixtures that were not.\<close>

lemma fill_black_written: "cols l \<noteq> None \<Longrightarrow> fill_black n cols l = cols l"
  by (simp add: fill_black_def)

lemma fill_black_unwritten: "cols l = None \<Longrightarrow> 0 \<le> l \<Longrightarrow> l < n \<Longrightarrow> fill_black n cols l = Some RGB_black"
  by (simp add: fill_black_def)

lemma fill_black_dom:
  "(\<forall>k. cols k \<noteq> None \<longrightarrow> 0 \<le> k \<and> k < n) \<Longrightarrow> dom (fill_black n cols) = {l. 0 \<le> l \<and> l < n}"
  by (auto simp: fill_black_def dom_def)

lemma entry_ok_tracker: "entry_ok (S\<lparr>active_events := a\<rparr>) e = entry_ok S e"
  by (simp add: entry_ok_def fixture_def)

text \<open>
  Three schedulers at beat 0, where the query window is \<open>[0, 1/50)\<close>: two stacked layers
  (all lights at 1/2, light 0 at 1), one light at intensity 1/200, and all lights with
  the reference \<^verbatim>\<open>palette.random_hold(0)\<close>.
\<close>

lemma layered_fields:
  "sched_cycle_beats layered = 4" "light_context layered = two_lights" "palette layered = None"
  "active_events layered = []"
  by (simp_all add: layered_def PatternScheduler_new_def)

lemma dimmed_fields:
  "sched_cycle_beats dimmed = 4" "light_context dimmed = two_lights" "palette dimmed = None"
  "active_events dimmed = []" "default_color dimmed = HSV_new 0 1 1"
  by (simp_all add: dimmed_def PatternScheduler_new_def)

lemma held_zero_fields:
  "sched_cycle_beats held_zero = 4" "light_context held_zero = two_lights"
  "palette held_zero = Some red_blue"
  "active_events held_zero = []" "default_color held_zero = HSV_new 0 1 1"
  by (simp_all add: held_zero_def PatternScheduler_new_def)

lemma layered_query:
  "pattern layered (query_window layered 0) (light_context layered) = Inr [all_half, zero_full]"
  by code_simp

lemma dimmed_query:
  "pattern dimmed (query_window dimmed 0) (light_context dimmed) = Inr [zero_dim]"
  by code_simp

lemma held_zero_query:
  "pattern held_zero (query_window held_zero 0) (light_context held_zero) = Inr [all_held_zero]"
  by code_simp

lemmas intensity_defs = visible_intensities_def active_intensities_def effective_intensity_def
      frame_position_def targets_def hap_light_ids_def two_lights_def
      LightContext_new_def resolve_group_def light_value_def whole_or_part_def contains_def span_def

text \<open>
  C1, as the code has it. Take a scheduler with a cycle length other than zero, a
  non-empty palette if any, no palette reference with a hold time of zero among the
  events \<open>haps\<close> that its pattern returns for the frame's window, and a tracker in order.
  Then \<open>compute_colors\<close> returns, and for each light \<open>l\<close>: the effective intensities
  \<^verbatim>\<open>event.intensity * envelope_intensity * modulator_intensity\<close> of the events that are
  active at the position and target \<open>l\<close> count only from 0.01 on; when there is one, the
  intensity recorded for \<open>l\<close> is their maximum and the returned colour is
  \<^verbatim>\<open>RGB.from_hsv(hue, saturation, maximum)\<close> for the colour of some event; when there is
  none and the tracker holds no event for \<open>l\<close>, no intensity is recorded and a fixture
  \<open>l\<close> is black. One write (\<open>htp_write\<close>) records the maximum of the recorded and the
  offered intensity, and changes nothing when the offered intensity is not strictly
  greater than the recorded one.
\<close>

theorem htp_blending:
  assumes "well_formed S haps"
      and "pattern S (query_window S beat) (light_context S) = Inr haps"
  shows "(\<exists>fr S'. compute_frame rng os S beat = Inr fr
       \<and> compute_colors rng os S beat =
           Inr (fill_black (num_lights (light_context S)) (fr_colors fr), S')
       \<and> (visible_intensities (light_context S) (frame_position S beat) haps l \<noteq> [] \<longrightarrow>
            fr_intensities fr l =
              Some (Max (set (visible_intensities (light_context S) (frame_position S beat) haps l)))
            \<and> (\<exists>col :: HSV. fill_black (num_lights (light_context S)) (fr_colors fr) l =
                  Some (RGB_from_hsv (hue col) (saturation col)
                    (Max (set (visible_intensities (light_context S) (frame_position S beat) haps l))))))
       \<and> (visible_intensities (light_context S) (frame_position S beat) haps l = []
            \<and> l \<notin> fst ` set (active_events S) \<longrightarrow>
            fr_intensities fr l = None
            \<and> (fixture S l \<longrightarrow>
                 fill_black (num_lights (light_context S)) (fr_colors fr) l = Some RGB_black)))
     \<and> fr_intensities (htp_write fr0 l col0 i) l = htp_max (fr_intensities fr0 l) i
     \<and> (\<forall>j. fr_intensities fr0 l = Some j \<and> i \<le> j \<longrightarrow> htp_write fr0 l col0 i = fr0)"
proof -
  let ?vis = "visible_intensities (light_context S) (frame_position S beat) haps l"
  let ?n = "num_lights (light_context S)"
  from compute_frame_light [OF assms, of rng os l]
  obtain fr where fr: "compute_frame rng os S beat = Inr fr" "consistent fr"
      "?vis \<noteq> [] \<longrightarrow> fr_intensities fr l = Some (Max (set ?vis))"
      "?vis = [] \<and> l \<notin> fst ` set (active_events S) \<longrightarrow> fr_intensities fr l = None"
    by blast
  have cc: "compute_colors rng os S beat =
      Inr (fill_black ?n (fr_colors fr), S\<lparr>active_events := fr_active fr\<rparr>)"
    using fr(1) by (simp add: compute_colors_def)
  have a: "?vis \<noteq> [] \<longrightarrow> fr_intensities fr l = Some (Max (set ?vis))
      \<and> (\<exists>col :: HSV. fill_black ?n (fr_colors fr) l =
            Some (RGB_from_hsv (hue col) (saturation col) (Max (set ?vis))))"
  proof
    assume "?vis \<noteq> []"
    then have i: "fr_intensities fr l = Some (Max (set ?vis))" using fr(3) by simp
    from consistent_Some [OF fr(2) i]
    obtain col :: HSV where
      c: "fr_colors fr l = Some (RGB_from_hsv (hue col) (saturation col) (Max (set ?vis)))"
      by blast
    then have "fill_black ?n (fr_colors fr) l =
        Some (RGB_from_hsv (hue col) (saturation col) (Max (set ?vis)))"
      by (simp add: fill_black_written)
    with i show "fr_intensities fr l = Some (Max (set ?vis))
      \<and> (\<exists>col :: HSV. fill_black ?n (fr_colors fr) l =
            Some (RGB_from_hsv (hue col) (saturation col) (Max (set ?vis))))"
      by blast
  qed
  have b: "?vis = [] \<and> l \<notin> fst ` set (active_events S) \<longrightarrow>
      fr_intensities fr l = None \<and> (fixture S l \<longrightarrow> fill_black ?n (fr_colors fr) l = Some RGB_black)"
  proof
    assume "?vis = [] \<and> l \<notin> fst ` set (active_events S)"
    then have i: "fr_intensities fr l = None" using fr(4) by simp
    then have "fr_colors fr l = None" using consistent_None [OF fr(2), of l] by simp
    then have "fixture S l \<longrightarrow> fill_black ?n (fr_colors fr) l = Some RGB_black"
      by (simp add: fixture_def fill_black_unwritten)
    with i show "fr_intensities fr l = None
        \<and> (fixture S l \<longrightarrow> fill_black ?n (fr_colors fr) l = Some RGB_black)"
      by simp
  qed
  have w1: "fr_intensities (htp_write fr0 l col0 i) l = htp_max (fr_intensities fr0 l) i"
    by (simp add: htp_write_int)
  have w2: "\<forall>j. fr_intensities fr0 l = Some j \<and> i \<le> j \<longrightarrow> htp_write fr0 l col0 i = fr0"
    by (auto simp: htp_write_def)
  from fr(1) cc a b have "\<exists>fr S'. compute_frame rng os S beat = Inr fr
       \<and> compute_colors rng os S beat = Inr (fill_black ?n (fr_colors fr), S')
       \<and> (?vis \<noteq> [] \<longrightarrow> fr_intensities fr l = Some (Max (set ?vis))
            \<and> (\<exists>col :: HSV. fill_black ?n (fr_colors fr) l =
                  Some (RGB_from_hsv (hue col) (saturation col) (Max (set ?vis)))))
       \<and> (?vis = [] \<and> l \<notin> fst ` set (active_events S) \<longrightarrow>
            fr_intensities fr l = None
            \<and> (fixture S l \<longrightarrow> fill_black ?n (fr_colors fr) l = Some RGB_black))"
    by blast
  with w1 w2 show ?thesis by blast
qed

text \<open>
  Two stacked layers at beat 0: light 0 is offered 1/2 by the group layer and then 1 by
  its own layer, and the frame records 1.
\<close>

lemma layered_visible:
  "visible_intensities (light_context layered) (frame_position layered 0) [all_half, zero_full] 0 = [1 / 2, 1]"
  "visible_intensities (light_context layered) (frame_position layered 0) [all_half, zero_full] 1 = [1 / 2]"
  by (simp_all add: layered_fields intensity_defs all_half_def zero_full_def)

lemma layered_well_formed: "well_formed layered [all_half, zero_full]"
  by (simp add: well_formed_def layered_fields palette_ok_def refs_ok_def opt_ref_ok_def
      all_half_def zero_full_def light_value_def)

theorem htp_blending_witness:
  "well_formed layered [all_half, zero_full]
   \<and> pattern layered (query_window layered 0) (light_context layered) = Inr [all_half, zero_full]
   \<and> visible_intensities (light_context layered) (frame_position layered 0) [all_half, zero_full] 0
       = [1 / 2, 1]
   \<and> (\<exists>fr S'. compute_frame demo_rng 0 layered 0 = Inr fr
        \<and> compute_colors demo_rng 0 layered 0 = Inr (fill_black 2 (fr_colors fr), S')
        \<and> fr_intensities fr 0 = Some 1
        \<and> (\<exists>col :: HSV. fill_black 2 (fr_colors fr) 0 = Some (RGB_from_hsv (hue col) (saturation col) 1)))"
proof -
  note w = htp_blending [OF layered_well_formed layered_query, of demo_rng 0 0, THEN conjunct1]
  have m: "Max (set [1 / 2, 1 :: real]) = 1" by simp
  have n: "num_lights (light_context layered) = 2"
    by (simp add: layered_fields two_lights_def LightContext_new_def)
  from w obtain fr S' where fr: "compute_frame demo_rng 0 layered 0 = Inr fr"
      "compute_colors demo_rng 0 layered 0 = Inr (fill_black 2 (fr_colors fr), S')"
      "fr_intensities fr 0 = Some 1
       \<and> (\<exists>col :: HSV. fill_black 2 (fr_colors fr) 0 = Some (RGB_from_hsv (hue col) (saturation col) 1))"
    unfolding layered_visible m n by auto
  then have "\<exists>fr S'. compute_frame demo_rng 0 layered 0 = Inr fr
        \<and> compute_colors demo_rng 0 layered 0 = Inr (fill_black 2 (fr_colors fr), S')
        \<and> fr_intensities fr 0 = Some 1
        \<and> (\<exists>col :: HSV. fill_black 2 (fr_colors fr) 0 = Some (RGB_from_hsv (hue col) (saturation col) 1))"
    by blast
  then show ?thesis using layered_well_formed layered_query layered_visible(1) by simp
qed


text \<open>
  One event of intensity 1/200 on light 0, active at beat 0. It is the only active event
  that targets the light, so the maximum of the effective intensities is 1/200, which
  \<^verbatim>\<open>RGB.from_hsv\<close> would show as (1, 0, 0); the frame records no intensity for the light
  and the returned colour is black.
\<close>

lemma dimmed_ids: "hap_light_ids (light_context dimmed) zero_dim = Some [0]"
  by (simp add: hap_light_ids_def zero_dim_def light_value_def)

lemma dimmed_candidate: "light_candidate demo_rng 0 dimmed 0 0 zero_dim 0 = Inr None"
  by (simp add: dimmed_fields zero_dim_def light_value_def
      light_candidate_def two_lights_def LightContext_new_def whole_or_part_def contains_def
      rendered_def resolve_color_def)

lemma dimmed_frame:
  "compute_frame demo_rng 0 dimmed 0 =
     Inr \<lparr>fr_colors = Map.empty, fr_intensities = Map.empty, fr_active = []\<rparr>"
  apply (simp only: compute_frame_def Let_def dimmed_query)
  apply (simp add: dimmed_fields(1,4) frame_position_def dimmed_ids dimmed_candidate)
  done

lemma dimmed_active:
  "active_intensities (light_context dimmed) (frame_position dimmed 0) [zero_dim] 0 = [1 / 200]"
  by (simp add: dimmed_fields intensity_defs zero_dim_def)

theorem htp_threshold_counterexample:
  "pattern dimmed (query_window dimmed 0) (light_context dimmed) = Inr [zero_dim]
   \<and> active_intensities (light_context dimmed) (frame_position dimmed 0) [zero_dim] 0 = [1 / 200]
   \<and> map_sum id (\<lambda>fr. (fr_intensities fr 0, fr_colors fr 0)) (compute_frame demo_rng 0 dimmed 0)
       = Inr (None, None)
   \<and> map_sum id (\<lambda>out. fst out 0) (compute_colors demo_rng 0 dimmed 0) = Inr (Some RGB_black)
   \<and> RGB_from_hsv (hue (default_color dimmed)) (saturation (default_color dimmed)) (1 / 200)
       = \<lparr>rgb_r = 1, rgb_g = 0, rgb_b = 0\<rparr>
   \<and> RGB_black = \<lparr>rgb_r = 0, rgb_g = 0, rgb_b = 0\<rparr>"
proof -
  have a: "map_sum id (\<lambda>fr. (fr_intensities fr 0, fr_colors fr 0)) (compute_frame demo_rng 0 dimmed 0)
       = Inr (None, None)"
    by (simp add: dimmed_frame)
  have b: "map_sum id (\<lambda>out. fst out 0) (compute_colors demo_rng 0 dimmed 0) = Inr (Some RGB_black)"
    by (simp add: compute_colors_def dimmed_frame fill_black_def dimmed_fields two_lights_def
        LightContext_new_def)
  have c: "RGB_from_hsv (hue (default_color dimmed)) (saturation (default_color dimmed)) (1 / 200)
       = \<lparr>rgb_r = 1, rgb_g = 0, rgb_b = 0\<rparr>"
    unfolding dimmed_fields by code_simp
  show ?thesis using dimmed_query dimmed_active a b c by (simp add: RGB_black_def)
qed

text \<open>
  C2, as the code has it. Under the same conditions (cycle length other than zero,
  non-empty palette if any, no palette reference with a hold time of zero among the
  events \<open>haps\<close> that the pattern returns for the window, tracker in order),
  \<open>compute_colors\<close> returns at every beat position; the keys of the returned dictionary
  are exactly the fixture ids \<open>0 \<le> l < num_lights\<close>; a fixture for which neither loop
  wrote a colour is black, a written colour is returned as written; and the tracker that
  the call leaves behind is in order again, so the next frame meets the same conditions.
\<close>

theorem compute_colors_total:
  assumes "well_formed S haps"
      and "pattern S (query_window S beat) (light_context S) = Inr haps"
  shows "\<exists>fr. compute_frame rng os S beat = Inr fr
     \<and> compute_colors rng os S beat =
         Inr (fill_black (num_lights (light_context S)) (fr_colors fr),
              S\<lparr>active_events := fr_active fr\<rparr>)
     \<and> dom (fill_black (num_lights (light_context S)) (fr_colors fr)) = {l. fixture S l}
     \<and> (\<forall>l. fixture S l \<and> fr_colors fr l = None \<longrightarrow>
           fill_black (num_lights (light_context S)) (fr_colors fr) l = Some RGB_black)
     \<and> (\<forall>l. fr_colors fr l \<noteq> None \<longrightarrow>
           fill_black (num_lights (light_context S)) (fr_colors fr) l = fr_colors fr l)
     \<and> list_all (entry_ok (S\<lparr>active_events := fr_active fr\<rparr>)) (fr_active fr)"
proof -
  let ?n = "num_lights (light_context S)"
  from compute_frame_light [OF assms, of rng os 0]
  obtain fr where fr: "compute_frame rng os S beat = Inr fr"
      "\<forall>k. fr_colors fr k \<noteq> None \<longrightarrow> fixture S k" "list_all (entry_ok S) (fr_active fr)"
    by blast
  have cc: "compute_colors rng os S beat =
      Inr (fill_black ?n (fr_colors fr), S\<lparr>active_events := fr_active fr\<rparr>)"
    using fr(1) by (simp add: compute_colors_def)
  have "\<forall>k. fr_colors fr k \<noteq> None \<longrightarrow> 0 \<le> k \<and> k < ?n"
    using fr(2) by (simp add: fixture_def)
  then have d: "dom (fill_black ?n (fr_colors fr)) = {l. fixture S l}"
    by (simp add: fill_black_dom fixture_def)
  have b: "\<forall>l. fixture S l \<and> fr_colors fr l = None \<longrightarrow> fill_black ?n (fr_colors fr) l = Some RGB_black"
    by (simp add: fixture_def fill_black_unwritten)
  have k: "\<forall>l. fr_colors fr l \<noteq> None \<longrightarrow> fill_black ?n (fr_colors fr) l = fr_colors fr l"
    by (simp add: fill_black_written)
  have t: "list_all (entry_ok (S\<lparr>active_events := fr_active fr\<rparr>)) (fr_active fr)"
    using fr(3) by (simp add: list_all_iff entry_ok_tracker)
  show ?thesis
  proof (intro exI conjI)
    show "compute_frame rng os S beat = Inr fr" by (rule fr(1))
    show "compute_colors rng os S beat =
        Inr (fill_black ?n (fr_colors fr), S\<lparr>active_events := fr_active fr\<rparr>)" by (rule cc)
    show "dom (fill_black ?n (fr_colors fr)) = {l. fixture S l}" by (rule d)
    show "\<forall>l. fixture S l \<and> fr_colors fr l = None \<longrightarrow>
        fill_black ?n (fr_colors fr) l = Some RGB_black" by (rule b)
    show "\<forall>l. fr_colors fr l \<noteq> None \<longrightarrow> fill_black ?n (fr_colors fr) l = fr_colors fr l"
      by (rule k)
    show "list_all (entry_ok (S\<lparr>active_events := fr_active fr\<rparr>)) (fr_active fr)" by (rule t)
  qed
qed

text \<open>The scheduler with one dim light at beat 0: a colour for each of the two fixtures.\<close>

lemma dimmed_well_formed: "well_formed dimmed [zero_dim]"
  by (simp add: well_formed_def dimmed_fields palette_ok_def refs_ok_def opt_ref_ok_def
      zero_dim_def light_value_def)

theorem compute_colors_total_witness:
  "well_formed dimmed [zero_dim]
   \<and> pattern dimmed (query_window dimmed 0) (light_context dimmed) = Inr [zero_dim]
   \<and> (\<exists>fr :: frame. compute_colors demo_rng 0 dimmed 0 =
              Inr (fill_black 2 (fr_colors fr), dimmed\<lparr>active_events := fr_active fr\<rparr>)
          \<and> dom (fill_black 2 (fr_colors fr)) = {l. 0 \<le> l \<and> l < 2})"
proof -
  have n: "num_lights (light_context dimmed) = 2"
    by (simp add: dimmed_fields two_lights_def LightContext_new_def)
  obtain fr :: frame where
      h1: "compute_colors demo_rng 0 dimmed 0 =
        Inr (fill_black 2 (fr_colors fr), dimmed\<lparr>active_events := fr_active fr\<rparr>)" and
      h2: "dom (fill_black 2 (fr_colors fr)) = {l. fixture dimmed l}"
    using compute_colors_total [OF dimmed_well_formed dimmed_query, of demo_rng 0]
    unfolding n by (elim exE conjE) (rule that)
  have h3: "dom (fill_black 2 (fr_colors fr)) = {l. 0 \<le> l \<and> l < 2}"
    using h2 by (simp add: fixture_def n)
  have "\<exists>fr :: frame. compute_colors demo_rng 0 dimmed 0 =
              Inr (fill_black 2 (fr_colors fr), dimmed\<lparr>active_events := fr_active fr\<rparr>)
          \<and> dom (fill_black 2 (fr_colors fr)) = {l. 0 \<le> l \<and> l < 2}"
    by (rule exI [of _ fr], rule conjI, rule h1, rule h3)
  then show ?thesis using dimmed_well_formed dimmed_query by simp
qed

text \<open>
  \<^verbatim>\<open>light("all").color(palette.random_hold(0))\<close> with the palette (red, blue) and four beats
  to a cycle: the pattern returns its event, resolving the reference divides by the hold
  time, and \<open>compute_colors\<close> raises \<^verbatim>\<open>ZeroDivisionError\<close> instead of returning a dictionary.
\<close>

lemma upto_two: "[0..1 :: int] = [0, 1]"
  by (simp add: upto.simps)

lemma held_zero_ids: "hap_light_ids (light_context held_zero) all_held_zero = Some [0, 1]"
  by (simp add: hap_light_ids_def all_held_zero_def light_value_def with_color_ref_def
      held_zero_fields two_lights_def LightContext_new_def resolve_group_def upto_two)

lemma held_zero_candidate:
  "light_candidate demo_rng 0 held_zero 0 0 all_held_zero 0 = Inl ZeroDivisionError"
  by (simp add: held_zero_fields all_held_zero_def light_value_def with_color_ref_def random_hold_def
      light_candidate_def two_lights_def LightContext_new_def whole_or_part_def contains_def
      rendered_def resolve_color_def resolve_def)

lemma held_zero_frame: "compute_frame demo_rng 0 held_zero 0 = Inl ZeroDivisionError"
  apply (simp only: compute_frame_def Let_def held_zero_query)
  apply (simp add: held_zero_fields(1,4) frame_position_def held_zero_ids held_zero_candidate)
  done

theorem compute_colors_raises_counterexample:
  "sched_cycle_beats held_zero = 4
   \<and> palette held_zero = Some red_blue
   \<and> pattern held_zero (query_window held_zero 0) (light_context held_zero) = Inr [all_held_zero]
   \<and> color_ref (hap_value all_held_zero) = Some (random_hold 0)
   \<and> compute_colors demo_rng 0 held_zero 0 = Inl ZeroDivisionError"
  using held_zero_query
  by (simp add: held_zero_fields compute_colors_def held_zero_frame all_held_zero_def
      with_color_ref_def light_value_def)

end
